theory Spec2Isabelle
  imports Main "HOL-Library.Word" "HOL-Library.Signed_Division"
begin

unbundle bit_operations_syntax

section \<open>Boot stage operations of the daemon (bootstages.c)\<close>

text \<open>
  The development embeds \<^verbatim>\<open>jni/daemon/bootstages.c\<close>. The overlay tree is an
  ownership tree, so a node is a value holding the list of its children. The
  \<^verbatim>\<open>parent\<close> pointer of a node is its position: the functions that
  walk parent pointers (\<^verbatim>\<open>get_full_path\<close>) receive the names of the
  ancestors, nearest first, a root having none. Freeing a node is dropping the value.

  Everything outside the file (system calls, the helpers of utils.c, the path constants
  of magisk.h) is a parameter: path constants and the answers of the file system are
  fields of records, and every call that changes the outside world is appended to a trace.
  Paths are assumed to fit in \<^verbatim>\<open>PATH_MAX\<close>, so \<^verbatim>\<open>snprintf\<close> is concatenation.
\<close>

subsection \<open>Directory entries and file trees\<close>

datatype dtype = DT_UNKNOWN | DT_FIFO | DT_CHR | DT_DIR | DT_BLK | DT_REG | DT_LNK | DT_SOCK | DT_WHT

text \<open>
  A directory that the code walks recursively (a module's \<^verbatim>\<open>system\<close> folder, the
  staging folder of simple mount) is a finite tree. \<open>FsDir\<close> holds the entries in the
  order \<^verbatim>\<open>readdir\<close> returns them (the entries \<^verbatim>\<open>.\<close> and \<^verbatim>\<open>..\<close> may be
  listed, the code skips them); \<open>FsLnk\<close> is a symbolic link with what it resolves to
  (\<open>None\<close> when it dangles); \<open>FsFile\<close> is any other file with the type
  \<^verbatim>\<open>readdir\<close> reports for it.
\<close>

datatype fsnode = FsDir "(string \<times> fsnode) list" | FsLnk "fsnode option" | FsFile dtype

fun d_type :: "fsnode \<Rightarrow> dtype" where
  "d_type (FsDir es) = DT_DIR"
| "d_type (FsLnk t) = DT_LNK"
| "d_type (FsFile ty) = ty"

text \<open>\<^verbatim>\<open>access(path, F_OK) == 0\<close> on a path that leads to this file: symbolic links are followed.\<close>

fun fs_exists :: "fsnode \<Rightarrow> bool" where
  "fs_exists (FsDir es) = True"
| "fs_exists (FsLnk None) = False"
| "fs_exists (FsLnk (Some t)) = fs_exists t"
| "fs_exists (FsFile ty) = True"

text \<open>The entry called \<open>nm\<close> of a directory (through symbolic links), if there is one.\<close>

fun fs_lookup :: "fsnode \<Rightarrow> string \<Rightarrow> fsnode option" where
  "fs_lookup (FsDir es) nm = map_of es nm"
| "fs_lookup (FsLnk None) nm = None"
| "fs_lookup (FsLnk (Some t)) nm = fs_lookup t nm"
| "fs_lookup (FsFile ty) nm = None"

definition fs_access :: "fsnode \<Rightarrow> string \<Rightarrow> bool" where
  "fs_access d nm = (case fs_lookup d nm of None \<Rightarrow> False | Some f \<Rightarrow> fs_exists f)"

subsection \<open>Node structure\<close>

text \<open>Precedence: MODULE > SKEL > INTER > DUMMY. The status is a \<^verbatim>\<open>uint8_t\<close>.\<close>

definition IS_DUMMY :: "8 word" where "IS_DUMMY = 0x01"
definition IS_INTER :: "8 word" where "IS_INTER = 0x02"
definition IS_SKEL :: "8 word" where "IS_SKEL = 0x04"
definition IS_MODULE :: "8 word" where "IS_MODULE = 0x08"
definition IS_VENDOR :: "8 word" where "IS_VENDOR = 0x10"

text \<open>
  \<^verbatim>\<open>struct node_entry\<close>. \<open>module\<close> is \<open>None\<close> for the null pointer that
  \<^verbatim>\<open>xcalloc\<close> leaves; \<open>children\<close> is the vector, empty for the null pointer too.
\<close>

datatype node_entry =
  Node (module: "string option") (name: string) (type: dtype) (status: "8 word")
       (children: "node_entry list")

definition set_status :: "8 word \<Rightarrow> node_entry \<Rightarrow> node_entry" where
  "set_status s n = Node (module n) (name n) (type n) s (children n)"

definition set_children :: "node_entry list \<Rightarrow> node_entry \<Rightarrow> node_entry" where
  "set_children cs n = Node (module n) (name n) (type n) (status n) cs"

definition set_name :: "string \<Rightarrow> node_entry \<Rightarrow> node_entry" where
  "set_name nm n = Node (module n) nm (type n) (status n) (children n)"

subsection \<open>Calls that change the outside world\<close>

text \<open>
  One constructor for each call of the file that acts on the file system, the mount table,
  the properties or the processes, with the arguments that are paths. Modes (always 0755)
  and flags are left out. \<open>RunSh p\<close> is \<^verbatim>\<open>run_command\<close> of \<^verbatim>\<open>sh p\<close>
  followed by the \<^verbatim>\<open>waitpid\<close>; \<open>XMount\<close> is the read-only ext4 mount of a mirror.
\<close>

datatype effect =
    BindMount string string
  | CpAfc string string
  | CloneAttr string string
  | CloneDir string string
  | XMkdir string
  | MkdirP string
  | XMkdirP string
  | OpenNew string
  | Rename string string
  | Unlink string
  | Rmdir string
  | RmRf string
  | Symlink string string
  | ResizeImg string int
  | CreateImg string int
  | MountImage string string
  | UmountImage string string
  | XMount string string
  | ReadPropFile string
  | RunSh string
  | System string
  | MonitorLogs
  | WriteInt int
  | CloseClient
  | CreateUnblock
  | StartMagiskHide
  | PthreadExit

subsection \<open>Paths and outside world of magic mount\<close>

text \<open>
  The path constants of magisk.h (a header that is not part of the sources, so they are
  parameters) and the answers of the live file system and of the
  mirror: \<open>live_access p\<close> is \<^verbatim>\<open>access(p, F_OK) == 0\<close>, \<open>live_islnk p\<close> is
  \<^verbatim>\<open>S_ISLNK\<close> of the mode \<^verbatim>\<open>xstat\<close> stores for \<open>p\<close>, \<open>mirror_readdir p\<close> is
  the listing of the directory \<open>p\<close> under the mirror, \<open>None\<close> when \<^verbatim>\<open>opendir\<close> fails.
  Which live paths exist does not change while a tree is built or a folder is walked: the
  builder makes no call that changes the file system, and a bind mount over an existing
  path leaves every path in existence.
\<close>

record env =
  MOUNTPOINT :: string
  MIRRDIR :: string
  DUMMDIR :: string
  CACHEMOUNT :: string
  MAINIMG :: string
  COREDIR :: string
  DATABIN :: string
  HOSTSFILE :: string
  UNINSTALLER :: string
  live_access :: "string \<Rightarrow> bool"
  live_islnk :: "string \<Rightarrow> bool"
  mirror_readdir :: "string \<Rightarrow> (string \<times> dtype) list option"

text \<open>
  \<^verbatim>\<open>get_full_path\<close>: the buffer starts as the node's name, and for every parent
  its name and a slash are put in front. The first argument lists the names met by
  following \<^verbatim>\<open>cur->parent\<close>.
\<close>

fun get_full_path_loop :: "string list \<Rightarrow> string \<Rightarrow> string" where
  "get_full_path_loop [] buffer = buffer"
| "get_full_path_loop (p # ps) buffer = get_full_path_loop ps (p @ ''/'' @ buffer)"

definition get_full_path :: "string list \<Rightarrow> node_entry \<Rightarrow> string" where
  "get_full_path anc node = get_full_path_loop anc (name node)"

subsection \<open>insert_child\<close>

text \<open>
  The loop of \<^verbatim>\<open>insert_child\<close> over the vector of the parent: the result is the
  vector after the call and the index of the node the call returns. A duplicate with
  strictly lower status is overwritten in its slot (its subtree is freed); otherwise the
  new node is freed and the old one returned; with no duplicate the node is pushed back.
\<close>

fun insert_scan :: "node_entry list \<Rightarrow> node_entry \<Rightarrow> node_entry list \<times> nat" where
  "insert_scan [] c = ([c], 0)"
| "insert_scan (e # es) c =
     (if name e = name c then
        (if status c > status e then (c # es, 0) else (e # es, 0))
      else (case insert_scan es c of (es', i) \<Rightarrow> (e # es', Suc i)))"

definition insert_child :: "node_entry \<Rightarrow> node_entry \<Rightarrow> node_entry \<times> nat" where
  "insert_child p c = (case insert_scan (children p) c of (cs, i) \<Rightarrow> (set_children cs p, i))"

subsection \<open>construct_tree\<close>

text \<open>
  \<open>construct_tree env module dir anc parent\<close>: \<open>dir\<close> is what the path
  \<^verbatim>\<open>MOUNTPOINT/module/full_path(parent)\<close> leads to in the module image, \<open>anc\<close> the
  names of the ancestors of \<open>parent\<close>. The result is \<open>parent\<close> after the call.
  \<open>construct_entries\<close> is the \<^verbatim>\<open>while\<close> loop over the entries still to be read.
\<close>

fun construct_tree :: "env \<Rightarrow> string \<Rightarrow> fsnode \<Rightarrow> string list \<Rightarrow> node_entry \<Rightarrow> node_entry"
and construct_entries ::
  "env \<Rightarrow> string \<Rightarrow> (string \<times> fsnode) list \<Rightarrow> string list \<Rightarrow> node_entry \<Rightarrow> node_entry"
where
  "construct_tree env modl (FsDir es) anc parent = construct_entries env modl es anc parent"
| "construct_tree env modl (FsLnk (Some t)) anc parent = construct_tree env modl t anc parent"
| "construct_tree env modl (FsLnk None) anc parent = parent"
| "construct_tree env modl (FsFile ty) anc parent = parent"
| "construct_entries env modl [] anc parent = parent"
| "construct_entries env modl ((nm, f) # es) anc parent =
     (if nm = ''.'' \<or> nm = ''..'' then construct_entries env modl es anc parent
      else
        let buf = get_full_path anc parent @ ''/'' @ nm;
            clone =
              (if d_type f = DT_LNK \<or> \<not> live_access env buf then True
               else if name parent \<noteq> ''/system'' \<or> nm \<noteq> ''vendor'' then live_islnk env buf
               else False);
            parent1 = (if clone then set_status (status parent OR IS_SKEL) parent else parent);
            st =
              (if clone then IS_MODULE
               else if d_type f = DT_DIR then
                 (if fs_access f ''.replace'' then IS_MODULE else IS_INTER)
               else if d_type f = DT_REG then IS_MODULE
               else 0);
            node = Node (Some modl) nm (d_type f) st []
        in case insert_child parent1 node of (parent2, i) \<Rightarrow>
          let child = children parent2 ! i;
              parent3 =
                (if status child AND (IS_SKEL OR IS_INTER) \<noteq> 0 then
                   set_children
                     ((children parent2)[i := construct_tree env modl f (name parent # anc) child])
                     parent2
                 else parent2)
          in construct_entries env modl es anc parent3)"

subsection \<open>clone_skeleton and magic_mount\<close>

text \<open>The first loop of \<^verbatim>\<open>clone_skeleton\<close>: a dummy node for every entry of the mirror.\<close>

fun insert_dummies :: "node_entry \<Rightarrow> (string \<times> dtype) list \<Rightarrow> node_entry" where
  "insert_dummies node [] = node"
| "insert_dummies node ((nm, ty) # es) =
     (if nm = ''.'' \<or> nm = ''..'' then insert_dummies node es
      else insert_dummies (fst (insert_child node (Node None nm ty IS_DUMMY []))) es)"

text \<open>What \<^verbatim>\<open>%s\<close> prints for the \<^verbatim>\<open>module\<close> pointer (the C library prints a null pointer so).\<close>

definition module_str :: "string option \<Rightarrow> string" where
  "module_str m = (case m of None \<Rightarrow> ''(null)'' | Some s \<Rightarrow> s)"

text \<open>
  The end of the body of the second loop: a symbolic link is copied from \<open>buf2\<close> into the
  skeleton, anything else is bind-mounted from \<open>buf2\<close> onto the live path.
\<close>

definition mount_child :: "env \<Rightarrow> string \<Rightarrow> node_entry \<Rightarrow> string \<Rightarrow> effect list" where
  "mount_child env full_path child buf2 =
     (if type child = DT_LNK then [CpAfc buf2 (DUMMDIR env @ full_path @ ''/'' @ name child)]
      else [BindMount buf2 (full_path @ ''/'' @ name child)])"

text \<open>
  The recursion of \<^verbatim>\<open>clone_skeleton\<close> enters the children that carry SKEL or INTER;
  inserting dummies adds no such child, which is the measure of its termination.
\<close>

fun walk_weight :: "node_entry \<Rightarrow> nat" where
  "walk_weight (Node m nm ty s cs) =
     Suc (sum_list (map (\<lambda>c. if status c AND (IS_SKEL OR IS_INTER) \<noteq> 0
                              then Suc (walk_weight c) else 0) cs))"

definition walk_weights :: "node_entry list \<Rightarrow> nat" where
  "walk_weights cs =
     sum_list (map (\<lambda>c. if status c AND (IS_SKEL OR IS_INTER) \<noteq> 0
                         then Suc (walk_weight c) else 0) cs)"

lemma walk_weight_children: "walk_weight n = Suc (walk_weights (children n))"
  by (cases n) (simp add: walk_weights_def)

lemma walk_weights_Cons:
  "walk_weights (c # cs) =
     (if status c AND (IS_SKEL OR IS_INTER) \<noteq> 0 then Suc (walk_weight c) else 0) + walk_weights cs"
  by (simp add: walk_weights_def)

lemma walk_weights_Nil: "walk_weights [] = 0"
  by (simp add: walk_weights_def)

lemma insert_scan_dummy_weight:
  "status c = IS_DUMMY \<Longrightarrow> walk_weights (fst (insert_scan cs c)) = walk_weights cs"
proof (induction cs)
  case Nil
  then show ?case
    by (simp add: walk_weights_Cons walk_weights_Nil IS_DUMMY_def IS_SKEL_def IS_INTER_def)
next
  case (Cons e es)
  have "status e < IS_DUMMY \<Longrightarrow> status e = 0"
    by (simp add: IS_DUMMY_def word_less_1)
  with Cons show ?case
    by (auto simp: walk_weights_Cons IS_DUMMY_def IS_SKEL_def IS_INTER_def split: prod.splits)
qed

lemma insert_dummies_weight:
  "walk_weights (children (insert_dummies node es)) = walk_weights (children node)"
proof (induction node es rule: insert_dummies.induct)
  case (1 node)
  then show ?case by simp
next
  case (2 node nm ty es)
  then show ?case
    using insert_scan_dummy_weight [of "Node None nm ty IS_DUMMY []" "children node"]
    by (auto simp: insert_child_def set_children_def split: prod.splits)
qed

text \<open>
  \<open>clone_skeleton env anc node buf2\<close> gives the node after the call, the content of the
  global buffer \<^verbatim>\<open>buf2\<close> after it and the calls made. \<^verbatim>\<open>buf2\<close> is passed along
  because the second loop reads it without writing it for a child that carries no flag.
  \<open>clone_children\<close> is the second loop over the children still to be visited;
  \<open>anc\<close> there are the ancestors of the children.
\<close>

function clone_skeleton ::
  "env \<Rightarrow> string list \<Rightarrow> node_entry \<Rightarrow> string \<Rightarrow> node_entry \<times> string \<times> effect list"
and clone_children ::
  "env \<Rightarrow> string list \<Rightarrow> string \<Rightarrow> node_entry list \<Rightarrow> string
     \<Rightarrow> node_entry list \<times> string \<times> effect list"
where
  "clone_skeleton env anc node buf2 =
     (let full_path = get_full_path anc node in
      case mirror_readdir env (MIRRDIR env @ full_path) of
        None \<Rightarrow> (node, buf2, [])
      | Some es \<Rightarrow>
          let node1 = insert_dummies node es;
              buf = DUMMDIR env @ full_path;
              ops1 = [MkdirP buf, CloneAttr full_path buf] @
                     (if status node1 AND IS_SKEL \<noteq> 0 then [BindMount buf full_path] else [])
          in case clone_children env (name node # anc) full_path (children node1) buf2 of
               (cs, buf2', ops2) \<Rightarrow> (set_children cs node1, buf2', ops1 @ ops2))"
| "clone_children env anc full_path [] buf2 = ([], buf2, [])"
| "clone_children env anc full_path (child # rest) buf2 =
     (let buf = DUMMDIR env @ full_path @ ''/'' @ name child;
          ops0 = (if type child = DT_DIR then [XMkdir buf]
                  else if type child = DT_REG then [OpenNew buf] else [])
      in
        if status child AND IS_VENDOR \<noteq> 0 then
          (case clone_children env anc full_path rest buf2 of
             (cs, b, ops) \<Rightarrow>
               (child # cs, b,
                ops0 @
                (if type child = DT_LNK
                 then [CpAfc (MIRRDIR env @ ''/system/vendor'') ''/system/vendor''] else []) @
                ops))
        else if status child AND IS_MODULE \<noteq> 0 then
          (let buf2' = MOUNTPOINT env @ ''/'' @ module_str (module child) @ full_path @ ''/'' @
                         name child
           in case clone_children env anc full_path rest buf2' of
                (cs, b, ops) \<Rightarrow>
                  (child # cs, b, ops0 @ mount_child env full_path child buf2' @ ops))
        else if status child AND (IS_SKEL OR IS_INTER) \<noteq> 0 then
          (case clone_skeleton env anc child buf2 of
             (child', b1, ops1) \<Rightarrow>
               (case clone_children env anc full_path rest b1 of
                  (cs, b, ops) \<Rightarrow> (child' # cs, b, ops0 @ ops1 @ ops)))
        else if status child AND IS_DUMMY \<noteq> 0 then
          (let buf2' = MIRRDIR env @ full_path @ ''/'' @ name child
           in case clone_children env anc full_path rest buf2' of
                (cs, b, ops) \<Rightarrow>
                  (child # cs, b, ops0 @ mount_child env full_path child buf2' @ ops))
        else
          (case clone_children env anc full_path rest buf2 of
             (cs, b, ops) \<Rightarrow>
               (child # cs, b, ops0 @ mount_child env full_path child buf2 @ ops)))"
  by pat_completeness auto
termination
proof (relation "inv_image (less_than <*lex*> less_than)
    (\<lambda>x. case x of
       Inl (env, anc, node, buf2) \<Rightarrow> (walk_weight node, 0)
     | Inr (env, anc, full_path, cs, buf2) \<Rightarrow> (walk_weights cs, Suc (length cs)))", goal_cases)
  case 1
  show ?case by (intro wf_inv_image wf_lex_prod wf_less_than)
next
  case (2 env anc node buf2 fp es node1 buf ops1)
  then show ?case
    by (simp add: walk_weight_children [of node] insert_dummies_weight)
qed (simp_all add: walk_weights_Cons)

text \<open>
  \<open>magic_mount env anc node buf2\<close>, with the same results as \<open>clone_skeleton\<close>;
  \<open>magic_children\<close> is the loop over the children of an intermediate node.
\<close>

fun magic_mount ::
  "env \<Rightarrow> string list \<Rightarrow> node_entry \<Rightarrow> string \<Rightarrow> node_entry \<times> string \<times> effect list"
and magic_children ::
  "env \<Rightarrow> string list \<Rightarrow> node_entry list \<Rightarrow> string \<Rightarrow> node_entry list \<times> string \<times> effect list"
where
  "magic_mount env anc (Node m nm ty s cs) buf2 =
     (if s AND IS_MODULE \<noteq> 0 then
        (let real_path = get_full_path anc (Node m nm ty s cs)
         in (Node m nm ty s cs, buf2,
             [BindMount (MOUNTPOINT env @ ''/'' @ module_str m @ real_path) real_path]))
      else if s AND IS_SKEL \<noteq> 0 then clone_skeleton env anc (Node m nm ty s cs) buf2
      else if s AND IS_INTER \<noteq> 0 then
        (case magic_children env (nm # anc) cs buf2 of
           (cs', b, ops) \<Rightarrow> (Node m nm ty s cs', b, ops))
      else (Node m nm ty s cs, buf2, []))"
| "magic_children env anc [] buf2 = ([], buf2, [])"
| "magic_children env anc (child # rest) buf2 =
     (case magic_mount env anc child buf2 of
        (child', b1, ops1) \<Rightarrow>
          (case magic_children env anc rest b1 of
             (cs, b, ops) \<Rightarrow> (child' # cs, b, ops1 @ ops)))"

subsection \<open>Simple mount\<close>

text \<open>
  \<open>simple_mount env staged path\<close>: \<open>staged\<close> is what \<^verbatim>\<open>CACHEMOUNT path\<close> leads
  to; the result lists the calls made. \<open>simple_entries\<close> is the loop over the entries.
\<close>

fun simple_mount :: "env \<Rightarrow> fsnode \<Rightarrow> string \<Rightarrow> effect list"
and simple_entries :: "env \<Rightarrow> (string \<times> fsnode) list \<Rightarrow> string \<Rightarrow> effect list"
where
  "simple_mount env (FsDir es) path = simple_entries env es path"
| "simple_mount env (FsLnk (Some t)) path = simple_mount env t path"
| "simple_mount env (FsLnk None) path = []"
| "simple_mount env (FsFile ty) path = []"
| "simple_entries env [] path = []"
| "simple_entries env ((nm, f) # es) path =
     (if nm = ''.'' \<or> nm = ''..'' then simple_entries env es path
      else
        let buf2 = path @ ''/'' @ nm in
        if \<not> live_access env buf2 then simple_entries env es path
        else if d_type f = DT_DIR then simple_mount env f buf2 @ simple_entries env es path
        else if d_type f = DT_REG then
          (let buf = CACHEMOUNT env @ buf2
           in [CloneAttr buf2 buf, BindMount buf buf2] @ simple_entries env es path)
        else simple_entries env es path)"

subsection \<open>Image handling\<close>

text \<open>
  \<^verbatim>\<open>#define round_size(a) ((((a) / 32) + 2) * 32)\<close> on \<^verbatim>\<open>int\<close>: the division
  truncates. Sizes are far from the limits of \<^verbatim>\<open>int\<close>.
\<close>

definition round_size :: "int \<Rightarrow> int" where
  "round_size a = ((a sdiv 32) + 2) * 32"

definition SOURCE_TMP :: string where "SOURCE_TMP = ''/dev/source''"
definition TARGET_TMP :: string where "TARGET_TMP = ''/dev/target''"

text \<open>
  What one call of \<^verbatim>\<open>merge_img\<close> meets: whether the two images exist, the used and
  total sizes \<^verbatim>\<open>get_img_size\<close> stores, the loop devices \<^verbatim>\<open>mount_image\<close> returns
  (\<open>None\<close> for a null pointer), the listing of the mounted source (\<open>None\<close> when
  \<^verbatim>\<open>opendir\<close> fails) and \<^verbatim>\<open>access(buf, F_OK) == 0\<close> in the mounted target.
\<close>

record merge_world =
  source_exists :: bool
  target_exists :: bool
  source_img_size :: "int \<times> int"
  target_img_size :: "int \<times> int"
  source_loop :: "string option"
  target_loop :: "string option"
  source_dir :: "(string \<times> dtype) list option"
  target_access :: "string \<Rightarrow> bool"

fun merge_entries :: "merge_world \<Rightarrow> (string \<times> dtype) list \<Rightarrow> effect list" where
  "merge_entries w [] = []"
| "merge_entries w ((nm, ty) # es) =
     (if ty = DT_DIR then
        (if nm = ''.'' \<or> nm = ''..'' \<or> nm = ''.core'' \<or> nm = ''lost+found''
         then merge_entries w es
         else
           let buf = TARGET_TMP @ ''/'' @ nm in
           if target_access w buf then RmRf buf # merge_entries w es
           else merge_entries w es)
      else merge_entries w es)"

text \<open>The result of \<^verbatim>\<open>merge_img\<close> is its return value and the calls made.\<close>

definition merge_img :: "merge_world \<Rightarrow> string \<Rightarrow> string \<Rightarrow> int \<times> effect list" where
  "merge_img w source target =
     (if \<not> source_exists w then (0, [])
      else if \<not> target_exists w then (0, [Rename source target])
      else
        let s_used = fst (source_img_size w);
            t_used = fst (target_img_size w);
            t_total = snd (target_img_size w);
            n_total = round_size (s_used + t_used);
            ops0 = (if n_total \<noteq> t_total then [ResizeImg target n_total] else []) @
                   [XMkdir SOURCE_TMP, XMkdir TARGET_TMP, MountImage source SOURCE_TMP]
        in case source_loop w of
             None \<Rightarrow> (1, ops0)
           | Some s_loop \<Rightarrow>
               (case target_loop w of
                  None \<Rightarrow> (1, ops0 @ [MountImage target TARGET_TMP])
                | Some t_loop \<Rightarrow>
                    (case source_dir w of
                       None \<Rightarrow> (1, ops0 @ [MountImage target TARGET_TMP])
                     | Some es \<Rightarrow>
                         (0, ops0 @ [MountImage target TARGET_TMP] @ merge_entries w es @
                             [CloneDir SOURCE_TMP TARGET_TMP,
                              UmountImage SOURCE_TMP s_loop, UmountImage TARGET_TMP t_loop,
                              Rmdir SOURCE_TMP, Rmdir TARGET_TMP, Unlink source]))))"

text \<open>\<^verbatim>\<open>trim_img\<close>, given the used and total size \<^verbatim>\<open>get_img_size\<close> stores.\<close>

definition trim_img :: "int \<times> int \<Rightarrow> string \<Rightarrow> effect list" where
  "trim_img sz img =
     (let new_size = round_size (fst sz)
      in if new_size \<noteq> snd sz then [ResizeImg img new_size] else [])"

subsection \<open>Scripts\<close>

text \<open>
  \<open>exec_common_script env dir access_x stage\<close>: \<open>dir\<close> answers \<^verbatim>\<open>opendir\<close> and
  \<open>access_x p\<close> is \<^verbatim>\<open>access(p, X_OK) \<noteq> -1\<close>.
  \<open>exec_module_script env access_f stage module_list\<close>: \<open>access_f p\<close> is
  \<^verbatim>\<open>access(p, F_OK) \<noteq> -1\<close>; the list is the global \<^verbatim>\<open>module_list\<close>.
\<close>

fun common_entries :: "(string \<Rightarrow> bool) \<Rightarrow> string \<Rightarrow> (string \<times> dtype) list \<Rightarrow> effect list" where
  "common_entries access_x buf [] = []"
| "common_entries access_x buf ((nm, ty) # es) =
     (if ty = DT_REG then
        (let buf2 = buf @ ''/'' @ nm in
         if \<not> access_x buf2 then common_entries access_x buf es
         else RunSh buf2 # common_entries access_x buf es)
      else common_entries access_x buf es)"

definition exec_common_script ::
  "env \<Rightarrow> (string \<Rightarrow> (string \<times> dtype) list option) \<Rightarrow> (string \<Rightarrow> bool) \<Rightarrow> string \<Rightarrow> effect list"
where
  "exec_common_script env dir access_x stage =
     (let buf = COREDIR env @ ''/'' @ stage @ ''.d''
      in case dir buf of None \<Rightarrow> [] | Some es \<Rightarrow> common_entries access_x buf es)"

fun exec_module_script :: "env \<Rightarrow> (string \<Rightarrow> bool) \<Rightarrow> string \<Rightarrow> string list \<Rightarrow> effect list" where
  "exec_module_script env access_f stage [] = []"
| "exec_module_script env access_f stage (modl # ms) =
     (let buf = MOUNTPOINT env @ ''/'' @ modl @ ''/'' @ stage @ ''.sh''
      in if \<not> access_f buf then exec_module_script env access_f stage ms
         else RunSh buf # exec_module_script env access_f stage ms)"

subsection \<open>Loading the modules\<close>

text \<open>
  The state of the loop of \<^verbatim>\<open>post_fs_data\<close> over the entries of \<^verbatim>\<open>MOUNTPOINT\<close>:
  the global \<^verbatim>\<open>module_list\<close>, the tree under \<^verbatim>\<open>sys_root\<close>, the flag
  \<^verbatim>\<open>has_modules\<close> and the calls made so far. The entries are the mounted image; a
  marker file of a module is an entry of its directory.
\<close>

record load_state =
  module_list :: "string list"
  sys_root :: node_entry
  has_modules :: bool
  load_trace :: "effect list"

fun load_modules :: "env \<Rightarrow> (string \<times> fsnode) list \<Rightarrow> load_state \<Rightarrow> load_state" where
  "load_modules env [] st = st"
| "load_modules env ((nm, f) # es) st =
     (if d_type f = DT_DIR then
        (if nm = ''.'' \<or> nm = ''..'' \<or> nm = ''.core'' \<or> nm = ''lost+found''
         then load_modules env es st
         else
           let buf = MOUNTPOINT env @ ''/'' @ nm in
           if fs_access f ''remove'' then
             load_modules env es (st\<lparr>load_trace := load_trace st @ [RmRf buf]\<rparr>)
           else if fs_access f ''disable'' then load_modules env es st
           else
             let st1 = st\<lparr>module_list := module_list st @ [nm],
                         load_trace := load_trace st @
                           (if fs_access f ''system.prop''
                            then [ReadPropFile (buf @ ''/system.prop'')] else [])\<rparr>
             in
               if \<not> fs_access f ''auto_mount'' then load_modules env es st1
               else
                 (case fs_lookup f ''system'' of
                    None \<Rightarrow> load_modules env es st1
                  | Some sysdir \<Rightarrow>
                      if \<not> fs_exists sysdir then load_modules env es st1
                      else
                        let buf2 = buf @ ''/system/vendor'';
                            link = (if fs_access sysdir ''vendor'' then
                                      [Unlink (MOUNTPOINT env @ ''/'' @ nm @ ''/vendor''),
                                       Symlink buf2 (MOUNTPOINT env @ ''/'' @ nm @ ''/vendor'')]
                                    else [])
                        in load_modules env es
                             (st1\<lparr>sys_root := construct_tree env nm sysdir [] (sys_root st1),
                                  has_modules := True,
                                  load_trace := load_trace st1 @ link\<rparr>)))
      else load_modules env es st)"

text \<open>The state before the loop: the root entry of the system tree and an empty list.\<close>

definition load_init :: load_state where
  "load_init = \<lparr>module_list = [], sys_root = Node None ''/system'' DT_UNKNOWN IS_INTER [],
                has_modules = False, load_trace = []\<rparr>"

subsection \<open>Mirrors and the vendor node\<close>

text \<open>\<^verbatim>\<open>strstr(hay, needle) \<noteq> NULL\<close>, and the word \<^verbatim>\<open>sscanf(line, "%s", buf)\<close> stores.\<close>

fun strstr :: "string \<Rightarrow> string \<Rightarrow> bool" where
  "strstr [] needle = (needle = [])"
| "strstr (h # hs) needle = (take (length needle) (h # hs) = needle \<or> strstr hs needle)"

definition isspace :: "char \<Rightarrow> bool" where
  "isspace c = (c \<in> set [CHR '' '', CHR 0x09, CHR 0x0A, CHR 0x0B, CHR 0x0C, CHR 0x0D])"

definition scan_word :: "string \<Rightarrow> string" where
  "scan_word line = takeWhile (\<lambda>c. \<not> isspace c) (dropWhile isspace line)"

text \<open>
  The loop over the lines of \<^verbatim>\<open>/proc/mounts\<close>; the state is the flag
  \<^verbatim>\<open>seperate_vendor\<close>, the content of \<^verbatim>\<open>buf2\<close> and the calls made. A line that
  holds one of the two mount points holds a word, so \<^verbatim>\<open>sscanf\<close> stores one.
\<close>

fun mirror_lines ::
  "env \<Rightarrow> string list \<Rightarrow> bool \<times> string \<times> effect list \<Rightarrow> bool \<times> string \<times> effect list"
where
  "mirror_lines env [] st = st"
| "mirror_lines env (line # ls) (sv, buf2, ops) =
     (if strstr line '' /system '' then
        (let buf = scan_word line; b = MIRRDIR env @ ''/system''
         in mirror_lines env ls (sv, b, ops @ [XMkdirP b, XMount buf b]))
      else if strstr line '' /vendor '' then
        (let buf = scan_word line; b = MIRRDIR env @ ''/vendor''
         in mirror_lines env ls (True, b, ops @ [XMkdirP b, XMount buf b]))
      else mirror_lines env ls (sv, buf2, ops))"

definition mount_mirrors :: "env \<Rightarrow> string list \<Rightarrow> string \<Rightarrow> bool \<times> string \<times> effect list" where
  "mount_mirrors env mounts buf2 =
     (case mirror_lines env mounts (False, buf2, []) of
        (sv, b, ops) \<Rightarrow>
          if \<not> sv then
            (sv, MIRRDIR env @ ''/vendor'',
             ops @ [Symlink (MIRRDIR env @ ''/system/vendor'') (MIRRDIR env @ ''/vendor'')])
          else (sv, b, ops))"

text \<open>
  The loop that extracts the vendor node: the result is the vector of \<^verbatim>\<open>sys_root\<close>
  after it and \<^verbatim>\<open>ven_root\<close> (\<open>None\<close> for the null pointer). The new node comes from
  \<^verbatim>\<open>xcalloc\<close>, so it has no module and no children; it stays in the vector of
  \<^verbatim>\<open>sys_root\<close>, which is its parent; the old node leaves the tree and becomes a root.
\<close>

fun hoist_scan :: "bool \<Rightarrow> node_entry list \<Rightarrow> node_entry list \<times> node_entry option" where
  "hoist_scan seperate_vendor [] = ([], None)"
| "hoist_scan seperate_vendor (child # rest) =
     (if name child = ''vendor'' then
        (Node None (name child) (if seperate_vendor then DT_LNK else DT_DIR) IS_VENDOR [] # rest,
         Some (set_name ''/vendor'' child))
      else (case hoist_scan seperate_vendor rest of (cs, v) \<Rightarrow> (child # cs, v)))"

definition vendor_hoist :: "bool \<Rightarrow> node_entry \<Rightarrow> node_entry \<times> node_entry option" where
  "vendor_hoist seperate_vendor root =
     (case hoist_scan seperate_vendor (children root) of (cs, v) \<Rightarrow> (set_children cs root, v))"

text \<open>
  The block under \<^verbatim>\<open>if (has_modules)\<close>: mirrors, the vendor node, then
  \<^verbatim>\<open>magic_mount(sys_root)\<close> and, if there is one, \<^verbatim>\<open>magic_mount(ven_root)\<close>. The
  mirrors always write \<^verbatim>\<open>buf2\<close>, so what it held before does not matter.
\<close>

definition magic_stage :: "env \<Rightarrow> string list \<Rightarrow> node_entry \<Rightarrow> effect list" where
  "magic_stage env mounts root =
     (case mount_mirrors env mounts [] of
        (seperate_vendor, buf2, ops0) \<Rightarrow>
          (case vendor_hoist seperate_vendor root of
             (root', ven_root) \<Rightarrow>
               (case magic_mount env [] root' buf2 of
                  (r1, b1, ops1) \<Rightarrow>
                    ops0 @ ops1 @
                    (case ven_root of
                       None \<Rightarrow> []
                     | Some v \<Rightarrow> snd (snd (magic_mount env [] v b1))))))"

subsection \<open>The post-fs-data stage\<close>

text \<open>
  What \<^verbatim>\<open>post_fs_data\<close> meets, one field for each question it asks the outside world,
  in the order of the code: the marker files (\<^verbatim>\<open>access(..., F_OK) == 0\<close>), the result of
  \<^verbatim>\<open>check_data\<close>, what the two calls of \<^verbatim>\<open>merge_img\<close> meet, whether the main image
  exists after them, the return value of \<^verbatim>\<open>create_img\<close>, the loop device of the first
  \<^verbatim>\<open>mount_image\<close>, the script folders, the entries of the mounted image, the sizes
  \<^verbatim>\<open>trim_img\<close> reads, the loop device of the second \<^verbatim>\<open>mount_image\<close>, the lines of
  \<^verbatim>\<open>/proc/mounts\<close>, \<^verbatim>\<open>access\<close> of the module scripts, the hosts file and the
  property. The build without \<^verbatim>\<open>DEBUG\<close> is modelled; logging is left out.
\<close>

record stage_world =
  latelogmon :: bool
  data_ready :: bool
  uninstaller :: bool
  cache_data_bin :: bool
  magisk_inject :: bool
  merge_cache :: merge_world
  merge_data :: merge_world
  mainimg_exists :: bool
  create_img_rc :: int
  mount_loop :: "string option"
  opendir_core :: "string \<Rightarrow> (string \<times> dtype) list option"
  access_x :: "string \<Rightarrow> bool"
  disablefile :: bool
  image :: "(string \<times> fsnode) list"
  trim_size :: "int \<times> int"
  remount_loop :: "string option"
  proc_mounts :: "string list"
  script_access :: "string \<Rightarrow> bool"
  hostsfile :: bool
  hide_prop :: "string option"

definition unblock_boot_process :: "effect list" where
  "unblock_boot_process = [CreateUnblock, PthreadExit]"

text \<open>From the label \<^verbatim>\<open>core_only\<close> to the end.\<close>

definition stage_end :: "env \<Rightarrow> stage_world \<Rightarrow> effect list" where
  "stage_end env w =
     (if hostsfile w then [BindMount (HOSTSFILE env) ''/system/etc/hosts''] else []) @
     (if hide_prop w = None \<or> hide_prop w \<noteq> Some ''0'' then [StartMagiskHide] else []) @
     unblock_boot_process"

text \<open>
  From \<^verbatim>\<open>xopendir(MOUNTPOINT)\<close> to \<^verbatim>\<open>exec_module_script\<close>. The pointer the second
  \<^verbatim>\<open>mount_image\<close> returns is freed without being looked at, so \<open>remount_loop\<close> is
  not read.
\<close>

definition load_and_mount :: "env \<Rightarrow> stage_world \<Rightarrow> string \<Rightarrow> effect list" where
  "load_and_mount env w magiskloop =
     (let st = load_modules env (image w) load_init
      in load_trace st @
         [UmountImage (MOUNTPOINT env) magiskloop] @
         trim_img (trim_size w) (MAINIMG env) @
         [MountImage (MAINIMG env) (MOUNTPOINT env)] @
         (if has_modules st then magic_stage env (proc_mounts w) (sys_root st) else []) @
         exec_module_script env (script_access w) ''post-fs-data'' (module_list st))"

definition post_fs_data :: "env \<Rightarrow> stage_world \<Rightarrow> effect list" where
  "post_fs_data env w =
     (let t0 = (if latelogmon w then [MonitorLogs] else []) @ [WriteInt 0, CloseClient] in
      if \<not> data_ready w then t0 @ unblock_boot_process
      else if uninstaller w then
        t0 @ [CreateUnblock, System (''(BOOTMODE=true sh '' @ UNINSTALLER env @ '') &'')]
      else
        let t1 = t0 @
              (if cache_data_bin w
               then [RmRf (DATABIN env), Rename ''/cache/data_bin'' (DATABIN env)] else []) @
              (if magisk_inject w
               then [RmRf (DATABIN env), Rename ''/data/local/tmp/magisk_inject'' (DATABIN env)]
               else []) @
              [System ''mv /data/magisk/stock_boot* /data;'']
        in case merge_img (merge_cache w) ''/cache/magisk.img'' (MAINIMG env) of
          (rc1, m1) \<Rightarrow>
            if rc1 \<noteq> 0 then t1 @ m1 @ unblock_boot_process
            else
              (case merge_img (merge_data w) ''/data/magisk_merge.img'' (MAINIMG env) of
                (rc2, m2) \<Rightarrow>
                  if rc2 \<noteq> 0 then t1 @ m1 @ m2 @ unblock_boot_process
                  else
                    let new_img = \<not> mainimg_exists w;
                        t2 = t1 @ m1 @ m2 @
                             (if new_img then [CreateImg (MAINIMG env) 64] else [])
                    in
                      if new_img \<and> create_img_rc w \<noteq> 0 then t2 @ unblock_boot_process
                      else
                        (case mount_loop w of
                           None \<Rightarrow>
                             t2 @ [MountImage (MAINIMG env) (MOUNTPOINT env)] @
                             unblock_boot_process
                         | Some magiskloop \<Rightarrow>
                             let t3 = t2 @ [MountImage (MAINIMG env) (MOUNTPOINT env)] @
                                   (if new_img then
                                      [XMkdir (COREDIR env),
                                       XMkdir (COREDIR env @ ''/post-fs-data.d''),
                                       XMkdir (COREDIR env @ ''/service.d''),
                                       XMkdir (COREDIR env @ ''/props'')]
                                    else []) @
                                   exec_common_script env (opendir_core w) (access_x w)
                                     ''post-fs-data''
                             in
                               if disablefile w then t3 @ stage_end env w
                               else t3 @ load_and_mount env w magiskloop @ stage_end env w)))"

subsection \<open>Notions used in the statements\<close>

text \<open>
  The nodes of a tree, each with its ancestors (nearest first): \<open>nodes_under anc n\<close>
  lists \<open>n\<close> and everything below it, \<open>anc\<close> being the ancestors of \<open>n\<close>.
\<close>

fun nodes_under :: "node_entry list \<Rightarrow> node_entry \<Rightarrow> (node_entry list \<times> node_entry) list" where
  "nodes_under anc (Node m nm ty s cs) =
     (anc, Node m nm ty s cs) # concat (map (nodes_under (Node m nm ty s cs # anc)) cs)"

text \<open>
  The shape of the trees \<open>construct_tree\<close> builds: a node is INTER or INTER with SKEL, or
  it is a leaf whose status is MODULE or 0 (an entry that is no directory, regular file
  or link and is not cloned keeps the status \<^verbatim>\<open>xcalloc\<close> left).
\<close>

fun node_ok :: "node_entry \<Rightarrow> bool" where
  "node_ok (Node m nm ty s cs) =
     ((s = IS_INTER \<or> s = IS_INTER OR IS_SKEL \<or> ((s = IS_MODULE \<or> s = 0) \<and> cs = [])) \<and>
      (\<forall>c\<in>set cs. node_ok c))"

definition dir_ok :: "node_entry \<Rightarrow> bool" where
  "dir_ok n = ((status n = IS_INTER \<or> status n = IS_INTER OR IS_SKEL) \<and>
               (\<forall>c\<in>set (children n). node_ok c))"

text \<open>
  \<open>walked env staged path\<close> lists what the walk of \<open>simple_mount env staged path\<close>
  reads: every entry of a folder it opens but \<^verbatim>\<open>.\<close> and \<^verbatim>\<open>..\<close>, with the live
  path it stands for; the walk goes on below a directory entry whose live path exists.
\<close>

fun walked :: "env \<Rightarrow> fsnode \<Rightarrow> string \<Rightarrow> (fsnode \<times> string) list"
and walked_entries :: "env \<Rightarrow> (string \<times> fsnode) list \<Rightarrow> string \<Rightarrow> (fsnode \<times> string) list"
where
  "walked env (FsDir es) path = walked_entries env es path"
| "walked env (FsLnk (Some t)) path = walked env t path"
| "walked env (FsLnk None) path = []"
| "walked env (FsFile ty) path = []"
| "walked_entries env [] path = []"
| "walked_entries env ((nm, f) # es) path =
     (if nm = ''.'' \<or> nm = ''..'' then walked_entries env es path
      else (f, path @ ''/'' @ nm) #
           (if live_access env (path @ ''/'' @ nm) \<and> d_type f = DT_DIR
            then walked env f (path @ ''/'' @ nm) else []) @
           walked_entries env es path)"

text \<open>
  \<open>kept n n'\<close>: \<open>n'\<close> has the module, name, type and status of \<open>n\<close>, and every
  child of \<open>n\<close> whose status is not 0 is kept, in the same way, in the same slot of
  \<open>n'\<close>, which may hold more children.
\<close>

fun kept :: "node_entry \<Rightarrow> node_entry \<Rightarrow> bool"
and kept_list :: "node_entry list \<Rightarrow> node_entry list \<Rightarrow> bool" where
  "kept (Node m nm ty s cs) n' =
     (module n' = m \<and> name n' = nm \<and> type n' = ty \<and> status n' = s \<and> kept_list cs (children n'))"
| "kept_list [] cs' = True"
| "kept_list (c # cs) [] = False"
| "kept_list (c # cs) (c' # cs') = ((status c \<noteq> 0 \<longrightarrow> kept c c') \<and> kept_list cs cs')"

text \<open>
  A dummy node as \<open>clone_skeleton\<close> creates it, and what its first loop does to a
  vector \<open>cs0\<close> whose names are distinct: names stay distinct, every slot keeps its
  name, a slot whose status is not 0 keeps its node, and every node is an old one or a
  dummy. \<open>cloned c c'\<close>: the second loop leaves \<open>c\<close> as it is or, when it carries SKEL
  or INTER, replaces it by what the recursive call returns.
\<close>

definition is_dummy :: "node_entry \<Rightarrow> bool" where
  "is_dummy c = (module c = None \<and> status c = IS_DUMMY \<and> children c = [])"

definition dummies_added :: "node_entry list \<Rightarrow> node_entry list \<Rightarrow> bool" where
  "dummies_added cs0 cs =
     (length cs0 \<le> length cs \<and> distinct (map name cs) \<and>
      (\<forall>i<length cs0. status (cs0 ! i) \<noteq> 0 \<longrightarrow> cs ! i = cs0 ! i) \<and>
      (\<forall>i<length cs0. name (cs ! i) = name (cs0 ! i)) \<and>
      (\<forall>c\<in>set cs. c \<in> set cs0 \<or> is_dummy c))"

definition cloned :: "node_entry \<Rightarrow> node_entry \<Rightarrow> bool" where
  "cloned c c' = (c' = c \<or> (status c AND (IS_SKEL OR IS_INTER) \<noteq> 0 \<and> kept c c'))"

text \<open>
  What holds of the state of the module loop: the root is called \<^verbatim>\<open>/system\<close>, and it
  has children only once \<^verbatim>\<open>has_modules\<close> is set.
\<close>

definition loaded :: "load_state \<Rightarrow> bool" where
  "loaded st = (name (sys_root st) = ''/system'' \<and> (has_modules st \<or> children (sys_root st) = []))"

subsection \<open>Concrete inputs\<close>

text \<open>
  The paths of a device: the live system partition has \<^verbatim>\<open>/system/etc\<close> with the files
  \<^verbatim>\<open>hosts\<close> and \<^verbatim>\<open>pipe\<close>, nothing is a symbolic link, and the mirror lists the
  same two files.
\<close>

definition env_example :: env where
  "env_example =
     \<lparr>MOUNTPOINT = ''/magisk'', MIRRDIR = ''/dev/magisk/mirror'', DUMMDIR = ''/dev/magisk/dummy'',
      CACHEMOUNT = ''/cache/magisk_mount'', MAINIMG = ''/data/magisk.img'',
      COREDIR = ''/magisk/.core'', DATABIN = ''/data/magisk'',
      HOSTSFILE = ''/magisk/.core/hosts'', UNINSTALLER = ''/cache/magisk_uninstaller.sh'',
      live_access = (\<lambda>p. p \<in> set [''/system/etc'', ''/system/etc/hosts'', ''/system/etc/pipe'']),
      live_islnk = (\<lambda>p. False),
      mirror_readdir = (\<lambda>p. if p = ''/dev/magisk/mirror/system/etc''
                              then Some [(''.'', DT_DIR), (''..'', DT_DIR), (''hosts'', DT_REG),
                                         (''pipe'', DT_REG)]
                              else None)\<rparr>"

text \<open>A module that provides \<^verbatim>\<open>system/etc/hosts\<close>, and an image with two such modules.\<close>

definition hosts_module :: fsnode where
  "hosts_module =
     FsDir [(''.'', FsFile DT_DIR), (''..'', FsFile DT_DIR), (''auto_mount'', FsFile DT_REG),
            (''system'', FsDir [(''etc'', FsDir [(''hosts'', FsFile DT_REG)])])]"

definition collision_image :: "(string \<times> fsnode) list" where
  "collision_image =
     [(''.'', FsFile DT_DIR), (''..'', FsFile DT_DIR), (''A'', hosts_module), (''B'', hosts_module)]"

text \<open>
  A module that adds the new file \<^verbatim>\<open>system/etc/new.conf\<close> and brings a named pipe
  \<^verbatim>\<open>system/etc/pipe\<close>, and the image that holds it.
\<close>

definition newfile_module :: fsnode where
  "newfile_module =
     FsDir [(''auto_mount'', FsFile DT_REG), (''post-fs-data.sh'', FsFile DT_REG),
            (''system'', FsDir [(''etc'', FsDir [(''pipe'', FsFile DT_FIFO),
                                               (''new.conf'', FsFile DT_REG)])])]"

definition newfile_image :: "(string \<times> fsnode) list" where
  "newfile_image = [(''.'', FsFile DT_DIR), (''..'', FsFile DT_DIR), (''A'', newfile_module)]"

text \<open>The staging folder of simple mount: \<^verbatim>\<open>etc/hosts\<close> and \<^verbatim>\<open>etc/new.conf\<close>.\<close>

definition staged_example :: fsnode where
  "staged_example =
     FsDir [(''.'', FsFile DT_DIR), (''..'', FsFile DT_DIR),
            (''etc'', FsDir [(''hosts'', FsFile DT_REG), (''new.conf'', FsFile DT_REG)])]"

text \<open>
  A merge of a staging image with 10 units used into a main image with 20 units used and
  a total of 32; both carry the module \<^verbatim>\<open>modA\<close> and a \<^verbatim>\<open>.core\<close> folder.
\<close>

definition merge_world_example :: merge_world where
  "merge_world_example =
     \<lparr>source_exists = True, target_exists = True,
      source_img_size = (10, 64), target_img_size = (20, 32),
      source_loop = Some ''/dev/block/loop0'', target_loop = Some ''/dev/block/loop1'',
      source_dir = Some [(''.'', DT_DIR), (''..'', DT_DIR), (''.core'', DT_DIR),
                         (''lost+found'', DT_DIR), (''modA'', DT_DIR), (''modB'', DT_DIR),
                         (''note.txt'', DT_REG)],
      target_access = (\<lambda>p. p = ''/dev/target/modA'' \<or> p = ''/dev/target/.core'')\<rparr>"

text \<open>The node of \<^verbatim>\<open>/system/etc\<close> once module \<^verbatim>\<open>A\<close> has brought \<^verbatim>\<open>hosts\<close>.\<close>

definition etc_node :: node_entry where
  "etc_node =
     Node (Some ''A'') ''etc'' DT_DIR IS_INTER [Node (Some ''A'') ''hosts'' DT_REG IS_MODULE []]"

text \<open>
  The node of \<^verbatim>\<open>/system/etc\<close> built from a module \<^verbatim>\<open>A\<close> with a named pipe and
  a new file and a module \<^verbatim>\<open>B\<close> with \<^verbatim>\<open>hosts\<close>.
\<close>

definition etc_skel_node :: node_entry where
  "etc_skel_node =
     Node (Some ''A'') ''etc'' DT_DIR (IS_INTER OR IS_SKEL)
       [Node (Some ''A'') ''pipe'' DT_FIFO 0 [],
        Node (Some ''A'') ''new.conf'' DT_REG IS_MODULE [],
        Node (Some ''B'') ''hosts'' DT_REG IS_MODULE []]"

text \<open>A module with properties and scripts but no \<^verbatim>\<open>auto_mount\<close> and no \<^verbatim>\<open>system\<close>.\<close>

definition plain_module :: fsnode where
  "plain_module =
     FsDir [(''.'', FsFile DT_DIR), (''..'', FsFile DT_DIR), (''system.prop'', FsFile DT_REG),
            (''service.sh'', FsFile DT_REG), (''post-fs-data.sh'', FsFile DT_REG)]"

text \<open>
  A device whose vendor partition is mounted apart, with a module that provides
  \<^verbatim>\<open>system/vendor/lib/x.so\<close>: the live paths, the module and what the stage meets.
\<close>

definition vendor_module :: fsnode where
  "vendor_module =
     FsDir [(''auto_mount'', FsFile DT_REG),
            (''system'', FsDir [(''vendor'', FsDir [(''lib'', FsDir [(''x.so'', FsFile DT_REG)])])])]"

definition vendor_env :: env where
  "vendor_env = env_example\<lparr>live_access :=
     (\<lambda>p. p \<in> set [''/system/vendor'', ''/system/vendor/lib'', ''/system/vendor/lib/x.so''])\<rparr>"

definition vendor_world :: stage_world where
  "vendor_world =
     \<lparr>latelogmon = False, data_ready = True, uninstaller = False, cache_data_bin = False,
      magisk_inject = False,
      merge_cache = merge_world_example\<lparr>source_exists := False\<rparr>,
      merge_data = merge_world_example\<lparr>source_exists := False\<rparr>,
      mainimg_exists = True, create_img_rc = 0, mount_loop = Some ''/dev/block/loop0'',
      opendir_core = (\<lambda>p. None), access_x = (\<lambda>p. False), disablefile = False,
      image = [(''.'', FsFile DT_DIR), (''..'', FsFile DT_DIR), (''V'', vendor_module)],
      trim_size = (20, 64), remount_loop = Some ''/dev/block/loop0'',
      proc_mounts = [''rootfs / rootfs ro 0 0'', ''/dev/block/sda1 /system ext4 ro 0 0'',
                     ''/dev/block/sda2 /vendor ext4 ro 0 0''],
      script_access = (\<lambda>p. False), hostsfile = False, hide_prop = Some ''0''\<rparr>"

text \<open>
  A boot in which the first \<^verbatim>\<open>mount_image\<close> of the main image succeeds and the second
  one, after the trim, returns a null pointer; the image holds the module with the new file.
\<close>

definition remount_fails_world :: stage_world where
  "remount_fails_world =
     \<lparr>latelogmon = False, data_ready = True, uninstaller = False, cache_data_bin = False,
      magisk_inject = False,
      merge_cache = merge_world_example\<lparr>source_exists := False\<rparr>,
      merge_data = merge_world_example\<lparr>source_exists := False\<rparr>,
      mainimg_exists = True, create_img_rc = 0, mount_loop = Some ''/dev/block/loop0'',
      opendir_core = (\<lambda>p. None), access_x = (\<lambda>p. False), disablefile = False,
      image = newfile_image,
      trim_size = (20, 64), remount_loop = None,
      proc_mounts = [''rootfs / rootfs ro 0 0'', ''/dev/block/sda1 /system ext4 ro 0 0''],
      script_access = (\<lambda>p. False), hostsfile = False, hide_prop = Some ''0''\<rparr>"



section \<open>Properties\<close>

subsection \<open>Image merge\<close>

lemma merge_entries_set:
  "set (merge_entries w es) =
     {RmRf (TARGET_TMP @ ''/'' @ nm) | nm. (nm, DT_DIR) \<in> set es \<and>
        nm \<noteq> ''.'' \<and> nm \<noteq> ''..'' \<and> nm \<noteq> ''.core'' \<and> nm \<noteq> ''lost+found'' \<and>
        target_access w (TARGET_TMP @ ''/'' @ nm)}"
  by (induction w es rule: merge_entries.induct) (auto simp: Let_def)

lemma round_size_30: "round_size 30 = 64"
  by (simp add: round_size_def)

text \<open>
  Claim C5, as amended. Merging a source image with 10 used into a target image with 20
  used and 32 total resizes the target to \<open>round_size (10 + 20)\<close>, which is
  \<open>((30 / 32) + 2) * 32 = 64\<close> since the division truncates: the first call is the
  resize to 64, and no resize to another size is made.
\<close>

theorem merge_img_resize:
  assumes "source_exists w" and "target_exists w"
    and "fst (source_img_size w) = 10" and "target_img_size w = (20, 32)"
  shows "round_size (10 + 20) = 64 \<and>
         hd (snd (merge_img w source target)) = ResizeImg target 64 \<and>
         (\<forall>n. ResizeImg target n \<in> set (snd (merge_img w source target)) \<longrightarrow> n = 64)"
  using assms
  by (auto simp: merge_img_def Let_def round_size_30 merge_entries_set split: option.splits)

theorem merge_img_resize_witness:
  "hd (snd (merge_img merge_world_example ''/cache/magisk.img'' ''/data/magisk.img'')) =
     ResizeImg ''/data/magisk.img'' 64"
  using merge_img_resize [of merge_world_example "''/cache/magisk.img''" "''/data/magisk.img''"]
  by (simp add: merge_world_example_def)

text \<open>
  The claim as stated (a resize to 96) fails on that input: the calls of the merge are
  listed, the resize is to 64, and no resize to 96 is among them.
\<close>

theorem merge_img_resize_counterexample:
  "snd (merge_img merge_world_example ''/cache/magisk.img'' ''/data/magisk.img'') =
     [ResizeImg ''/data/magisk.img'' 64, XMkdir ''/dev/source'', XMkdir ''/dev/target'',
      MountImage ''/cache/magisk.img'' ''/dev/source'',
      MountImage ''/data/magisk.img'' ''/dev/target'',
      RmRf ''/dev/target/modA'',
      CloneDir ''/dev/source'' ''/dev/target'',
      UmountImage ''/dev/source'' ''/dev/block/loop0'',
      UmountImage ''/dev/target'' ''/dev/block/loop1'',
      Rmdir ''/dev/source'', Rmdir ''/dev/target'', Unlink ''/cache/magisk.img''] \<and>
   ResizeImg ''/data/magisk.img'' 96 \<notin>
     set (snd (merge_img merge_world_example ''/cache/magisk.img'' ''/data/magisk.img''))"
  by (simp add: merge_img_def merge_world_example_def Let_def round_size_def
      SOURCE_TMP_def TARGET_TMP_def)

text \<open>
  Claim C6. \<open>merge_img\<close> returns 0 and makes no call when the source is absent; when
  the source exists and the target is absent its only call is the rename of the source to
  the target, and it returns 0; when both exist and it returns 0, both images were
  mounted, and after the mounts come the removals of the loop over the source, then the
  clone of the source into the target, the two unmounts, the removal of the two mount
  points and the unlink of the source. The loop removes from the target exactly the
  directories of the source that the target has too, and never \<^verbatim>\<open>.\<close>, \<^verbatim>\<open>..\<close>,
  \<^verbatim>\<open>.core\<close> or \<^verbatim>\<open>lost+found\<close>.
\<close>

theorem merge_img_paths:
  "(\<not> source_exists w \<longrightarrow> merge_img w source target = (0, [])) \<and>
   (source_exists w \<and> \<not> target_exists w \<longrightarrow>
      merge_img w source target = (0, [Rename source target])) \<and>
   (source_exists w \<and> target_exists w \<and> fst (merge_img w source target) = 0 \<longrightarrow>
      (\<exists>pre s_loop t_loop es.
         source_loop w = Some s_loop \<and> target_loop w = Some t_loop \<and> source_dir w = Some es \<and>
         snd (merge_img w source target) =
           pre @ [MountImage source SOURCE_TMP, MountImage target TARGET_TMP] @
           merge_entries w es @
           [CloneDir SOURCE_TMP TARGET_TMP,
            UmountImage SOURCE_TMP s_loop, UmountImage TARGET_TMP t_loop,
            Rmdir SOURCE_TMP, Rmdir TARGET_TMP, Unlink source] \<and>
         set (merge_entries w es) =
           {RmRf (TARGET_TMP @ ''/'' @ nm) | nm. (nm, DT_DIR) \<in> set es \<and>
              nm \<noteq> ''.'' \<and> nm \<noteq> ''..'' \<and> nm \<noteq> ''.core'' \<and> nm \<noteq> ''lost+found'' \<and>
              target_access w (TARGET_TMP @ ''/'' @ nm)}))"
proof (intro conjI impI)
  assume "\<not> source_exists w"
  then show "merge_img w source target = (0, [])" by (simp add: merge_img_def)
next
  assume "source_exists w \<and> \<not> target_exists w"
  then show "merge_img w source target = (0, [Rename source target])"
    by (simp add: merge_img_def)
next
  assume a: "source_exists w \<and> target_exists w \<and> fst (merge_img w source target) = 0"
  then obtain s_loop t_loop es where
    w: "source_loop w = Some s_loop" "target_loop w = Some t_loop" "source_dir w = Some es"
    by (auto simp: merge_img_def Let_def split: option.splits)
  define pre where
    "pre = (if round_size (fst (source_img_size w) + fst (target_img_size w)) \<noteq>
               snd (target_img_size w)
            then [ResizeImg target
                    (round_size (fst (source_img_size w) + fst (target_img_size w)))]
            else []) @
           [XMkdir SOURCE_TMP, XMkdir TARGET_TMP]"
  have "snd (merge_img w source target) =
           pre @ [MountImage source SOURCE_TMP, MountImage target TARGET_TMP] @
           merge_entries w es @
           [CloneDir SOURCE_TMP TARGET_TMP,
            UmountImage SOURCE_TMP s_loop, UmountImage TARGET_TMP t_loop,
            Rmdir SOURCE_TMP, Rmdir TARGET_TMP, Unlink source]"
    using a w by (simp add: merge_img_def Let_def pre_def)
  with w merge_entries_set [of w es]
  show "\<exists>pre s_loop t_loop es.
         source_loop w = Some s_loop \<and> target_loop w = Some t_loop \<and> source_dir w = Some es \<and>
         snd (merge_img w source target) =
           pre @ [MountImage source SOURCE_TMP, MountImage target TARGET_TMP] @
           merge_entries w es @
           [CloneDir SOURCE_TMP TARGET_TMP,
            UmountImage SOURCE_TMP s_loop, UmountImage TARGET_TMP t_loop,
            Rmdir SOURCE_TMP, Rmdir TARGET_TMP, Unlink source] \<and>
         set (merge_entries w es) =
           {RmRf (TARGET_TMP @ ''/'' @ nm) | nm. (nm, DT_DIR) \<in> set es \<and>
              nm \<noteq> ''.'' \<and> nm \<noteq> ''..'' \<and> nm \<noteq> ''.core'' \<and> nm \<noteq> ''lost+found'' \<and>
              target_access w (TARGET_TMP @ ''/'' @ nm)}"
    by blast
qed

theorem merge_img_paths_witness:
  "merge_img (merge_world_example\<lparr>source_exists := False\<rparr>)
     ''/cache/magisk.img'' ''/data/magisk.img'' = (0, []) \<and>
   merge_img (merge_world_example\<lparr>target_exists := False\<rparr>)
     ''/cache/magisk.img'' ''/data/magisk.img'' =
     (0, [Rename ''/cache/magisk.img'' ''/data/magisk.img'']) \<and>
   fst (merge_img merge_world_example ''/cache/magisk.img'' ''/data/magisk.img'') = 0 \<and>
   set (merge_entries merge_world_example
          [(''.'', DT_DIR), (''..'', DT_DIR), (''.core'', DT_DIR), (''lost+found'', DT_DIR),
           (''modA'', DT_DIR), (''modB'', DT_DIR), (''note.txt'', DT_REG)]) =
     {RmRf ''/dev/target/modA''}"
  using
    merge_img_paths [of "merge_world_example\<lparr>source_exists := False\<rparr>"
      "''/cache/magisk.img''" "''/data/magisk.img''"]
    merge_img_paths [of "merge_world_example\<lparr>target_exists := False\<rparr>"
      "''/cache/magisk.img''" "''/data/magisk.img''"]
    merge_img_paths [of "merge_world_example" "''/cache/magisk.img''" "''/data/magisk.img''"]
  by (simp add: merge_world_example_def merge_img_def Let_def TARGET_TMP_def)

subsection \<open>The overlay tree\<close>

lemma insert_scan_index: "insert_scan cs c = (cs', i) \<Longrightarrow> i < length cs'"
  by (induction cs arbitrary: cs' i) (auto split: if_splits prod.splits)

lemma insert_scan_set: "insert_scan cs c = (cs', i) \<Longrightarrow> set cs' \<subseteq> insert c (set cs)"
  by (induction cs arbitrary: cs' i) (auto split: if_splits prod.splits)

lemma insert_scan_first_duplicate:
  "i < length cs \<Longrightarrow> name (cs ! i) = name c \<Longrightarrow> \<forall>j<i. name (cs ! j) \<noteq> name c \<Longrightarrow>
   insert_scan cs c = (if status (cs ! i) < status c then (cs[i := c], i) else (cs, i))"
proof (induction cs arbitrary: i)
  case Nil
  then show ?case by simp
next
  case (Cons e es)
  show ?case
  proof (cases i)
    case 0
    with Cons.prems show ?thesis by simp
  next
    case (Suc k)
    with Cons.prems have ne: "name e \<noteq> name c" by auto
    from Suc Cons.prems have "k < length es" "name (es ! k) = name c" "\<forall>j<k. name (es ! j) \<noteq> name c"
      by auto
    from Cons.IH [OF this] ne Suc show ?thesis by simp
  qed
qed

lemma insert_scan_no_duplicate:
  "\<forall>e\<in>set cs. name e \<noteq> name c \<Longrightarrow> insert_scan cs c = (cs @ [c], length cs)"
  by (induction cs) auto

lemma insert_scan_keeps:
  "insert_scan cs c = (cs', k) \<Longrightarrow> i < length cs \<Longrightarrow> \<not> status (cs ! i) < status c \<Longrightarrow>
   i < length cs' \<and> cs' ! i = cs ! i"
proof (induction cs arbitrary: cs' k i)
  case Nil
  then show ?case by simp
next
  case (Cons e es)
  show ?case
  proof (cases i)
    case 0
    with Cons.prems show ?thesis by (auto split: if_splits prod.splits)
  next
    case (Suc j)
    with Cons.prems Cons.IH [of _ _ j] show ?thesis
      by (auto split: if_splits prod.splits)
  qed
qed

lemma insert_scan_returned:
  "insert_scan cs c = (cs', k) \<Longrightarrow> cs' ! k = c \<or> (k < length cs \<and> cs' ! k = cs ! k)"
  by (induction cs arbitrary: cs' k) (auto split: if_splits prod.splits)

lemma set_children_same: "set_children (children p) p = p"
  by (cases p) (simp add: set_children_def)

lemma construct_entries_step:
  assumes "nm \<noteq> ''.''" "nm \<noteq> ''..''"
    and "buf = get_full_path anc parent @ ''/'' @ nm"
    and "clone = (if d_type f = DT_LNK \<or> \<not> live_access env buf then True
               else if name parent \<noteq> ''/system'' \<or> nm \<noteq> ''vendor'' then live_islnk env buf
               else False)"
    and "parent1 = (if clone then set_status (status parent OR IS_SKEL) parent else parent)"
    and "st = (if clone then IS_MODULE
               else if d_type f = DT_DIR then
                 (if fs_access f ''.replace'' then IS_MODULE else IS_INTER)
               else if d_type f = DT_REG then IS_MODULE
               else 0)"
    and "node = Node (Some modl) nm (d_type f) st []"
    and "insert_child parent1 node = (parent2, i)"
    and "child = children parent2 ! i"
    and "parent3 = (if status child AND (IS_SKEL OR IS_INTER) \<noteq> 0 then
                   set_children
                     ((children parent2)[i := construct_tree env modl f (name parent # anc) child])
                     parent2
                 else parent2)"
  shows "construct_entries env modl ((nm, f) # es) anc parent = construct_entries env modl es anc parent3"
  using assms
  by (simp only: construct_entries.simps Let_def split_conv if_False simp_thms)

lemma construct_keeps_module:
  "i < length (children parent) \<Longrightarrow> status (children parent ! i) = IS_MODULE \<Longrightarrow>
   i < length (children (construct_tree env modl dir anc parent)) \<and>
   children (construct_tree env modl dir anc parent) ! i = children parent ! i"
  "i < length (children parent) \<Longrightarrow> status (children parent ! i) = IS_MODULE \<Longrightarrow>
   i < length (children (construct_entries env modl es anc parent)) \<and>
   children (construct_entries env modl es anc parent) ! i = children parent ! i"
proof (induction env modl dir anc parent and env modl es anc parent rule: construct_tree_construct_entries.induct)
  case (6 env modl nm f es anc parent)
  show ?case
  proof (cases "nm = ''.'' \<or> nm = ''..''")
    case True
    with 6 show ?thesis by simp
  next
    case False
    define buf where "buf = get_full_path anc parent @ ''/'' @ nm"
    define clone where "clone = (if d_type f = DT_LNK \<or> \<not> live_access env buf then True
               else if name parent \<noteq> ''/system'' \<or> nm \<noteq> ''vendor'' then live_islnk env buf
               else False)"
    define parent1 where "parent1 = (if clone then set_status (status parent OR IS_SKEL) parent else parent)"
    define st where "st = (if clone then IS_MODULE
               else if d_type f = DT_DIR then
                 (if fs_access f ''.replace'' then IS_MODULE else IS_INTER)
               else if d_type f = DT_REG then IS_MODULE
               else 0)"
    define node where "node = Node (Some modl) nm (d_type f) st []"
    obtain parent2 k where ins: "insert_child parent1 node = (parent2, k)" by force
    define child where "child = children parent2 ! k"
    define parent3 where "parent3 = (if status child AND (IS_SKEL OR IS_INTER) \<noteq> 0 then
                   set_children
                     ((children parent2)[k := construct_tree env modl f (name parent # anc) child])
                     parent2
                 else parent2)"
    have unfold: "construct_entries env modl ((nm, f) # es) anc parent = construct_entries env modl es anc parent3"
      using False by (intro construct_entries_step [OF _ _ buf_def clone_def parent1_def st_def node_def ins child_def parent3_def]) simp_all
    have c1: "children parent1 = children parent"
      by (simp add: parent1_def set_status_def)
    have st_le: "\<not> IS_MODULE < st"
      by (simp add: st_def IS_MODULE_def IS_INTER_def)
    obtain cs where sc: "insert_scan (children parent1) node = (cs, k)" and p2: "parent2 = set_children cs parent1"
      using ins by (auto simp: insert_child_def split: prod.splits)
    from insert_scan_keeps [OF sc, of i] "6.prems" c1 st_le
    have k2: "i < length (children parent2)" "children parent2 ! i = children parent ! i"
      by (simp_all add: p2 set_children_def node_def)
    have k3: "i < length (children parent3) \<and> children parent3 ! i = children parent ! i"
    proof (cases "status child AND (IS_SKEL OR IS_INTER) \<noteq> 0")
      case True
      have "k \<noteq> i"
      proof
        assume "k = i"
        with k2 "6.prems" have "status child = IS_MODULE" by (simp add: child_def)
        with True show False by (simp add: IS_MODULE_def IS_SKEL_def IS_INTER_def)
      qed
      with True k2 show ?thesis by (simp add: parent3_def set_children_def)
    next
      case False
      with k2 show ?thesis by (simp add: parent3_def)
    qed
    from "6.IH"(3) [OF False buf_def clone_def parent1_def st_def node_def ins [symmetric] child_def parent3_def] k3 "6.prems"
    show ?thesis unfolding unfold by simp
  qed
qed simp_all

lemma node_ok_alt:
  "node_ok n = ((status n = IS_INTER \<or> status n = IS_INTER OR IS_SKEL \<or>
                 ((status n = IS_MODULE \<or> status n = 0) \<and> children n = [])) \<and>
                (\<forall>c\<in>set (children n). node_ok c))"
  by (cases n) simp

lemma dir_ok_node_ok: "dir_ok n \<Longrightarrow> node_ok n"
  by (auto simp: dir_ok_def node_ok_alt [of n])

lemma node_ok_dir_ok: "node_ok n \<Longrightarrow> status n AND (IS_SKEL OR IS_INTER) \<noteq> 0 \<Longrightarrow> dir_ok n"
  by (auto simp: dir_ok_def node_ok_alt [of n] IS_SKEL_def IS_INTER_def IS_MODULE_def)

lemma dir_ok_skel: "dir_ok n \<Longrightarrow> dir_ok (set_status (status n OR IS_SKEL) n)"
  by (auto simp: dir_ok_def set_status_def IS_SKEL_def IS_INTER_def)

lemma dir_ok_insert:
  assumes "dir_ok p" "node_ok c" "insert_child p c = (p', i)"
  shows "dir_ok p' \<and> i < length (children p') \<and> node_ok (children p' ! i)"
proof -
  obtain cs where sc: "insert_scan (children p) c = (cs, i)" and p': "p' = set_children cs p"
    using assms(3) by (auto simp: insert_child_def split: prod.splits)
  from insert_scan_set [OF sc] assms(1,2) have all: "\<forall>x\<in>set cs. node_ok x"
    by (auto simp: dir_ok_def)
  from insert_scan_index [OF sc] have i: "i < length cs" .
  with all have "node_ok (cs ! i)" by simp
  with all i assms(1) p' show ?thesis by (simp add: dir_ok_def set_children_def)
qed

lemma dir_ok_update:
  "dir_ok p \<Longrightarrow> node_ok c \<Longrightarrow> dir_ok (set_children ((children p)[i := c]) p)"
  by (auto simp: dir_ok_def set_children_def dest: set_update_subset_insert [THEN subsetD])

lemma construct_ok:
  "dir_ok parent \<Longrightarrow> dir_ok (construct_tree env modl dir anc parent)"
  "dir_ok parent \<Longrightarrow> dir_ok (construct_entries env modl es anc parent)"
proof (induction env modl dir anc parent and env modl es anc parent rule: construct_tree_construct_entries.induct)
  case (6 env modl nm f es anc parent)
  show ?case
  proof (cases "nm = ''.'' \<or> nm = ''..''")
    case True
    with 6 show ?thesis by simp
  next
    case False
    define buf where "buf = get_full_path anc parent @ ''/'' @ nm"
    define clone where "clone = (if d_type f = DT_LNK \<or> \<not> live_access env buf then True
               else if name parent \<noteq> ''/system'' \<or> nm \<noteq> ''vendor'' then live_islnk env buf
               else False)"
    define parent1 where "parent1 = (if clone then set_status (status parent OR IS_SKEL) parent else parent)"
    define st where "st = (if clone then IS_MODULE
               else if d_type f = DT_DIR then
                 (if fs_access f ''.replace'' then IS_MODULE else IS_INTER)
               else if d_type f = DT_REG then IS_MODULE
               else 0)"
    define node where "node = Node (Some modl) nm (d_type f) st []"
    obtain parent2 i where ins: "insert_child parent1 node = (parent2, i)" by force
    define child where "child = children parent2 ! i"
    define parent3 where "parent3 = (if status child AND (IS_SKEL OR IS_INTER) \<noteq> 0 then
                   set_children
                     ((children parent2)[i := construct_tree env modl f (name parent # anc) child])
                     parent2
                 else parent2)"
    have unfold: "construct_entries env modl ((nm, f) # es) anc parent = construct_entries env modl es anc parent3"
      using False by (intro construct_entries_step [OF _ _ buf_def clone_def parent1_def st_def node_def ins child_def parent3_def]) simp_all
    have p1: "dir_ok parent1" using "6.prems" by (simp add: parent1_def dir_ok_skel)
    have nd: "node_ok node" by (simp add: node_def st_def)
    from dir_ok_insert [OF p1 nd ins] have p2: "dir_ok parent2" and ch: "node_ok child"
      by (simp_all add: child_def)
    have p3: "dir_ok parent3"
    proof (cases "status child AND (IS_SKEL OR IS_INTER) \<noteq> 0")
      case True
      from node_ok_dir_ok [OF ch True] have "dir_ok child" .
      from "6.IH"(2) [OF False buf_def clone_def parent1_def st_def node_def ins [symmetric] child_def True this]
      have "dir_ok (construct_tree env modl f (name parent # anc) child)" .
      then show ?thesis using True p2 by (simp add: parent3_def dir_ok_update dir_ok_node_ok)
    next
      case False
      then show ?thesis using p2 by (simp add: parent3_def)
    qed
    from "6.IH"(3) [OF False buf_def clone_def parent1_def st_def node_def ins [symmetric] child_def parent3_def p3]
    show ?thesis by (simp only: unfold)
  qed
qed simp_all

lemma load_modules_append:
  "load_modules env (xs @ ys) st = load_modules env ys (load_modules env xs st)"
proof (induction xs arbitrary: st)
  case Nil
  show ?case by simp
next
  case (Cons e xs)
  obtain nm f where e: "e = (nm, f)" by (cases e)
  show ?case unfolding e by (simp add: Let_def Cons.IH split: option.splits)
qed

lemma load_modules_Cons:
  "load_modules env (e # es) st = load_modules env es (load_modules env [e] st)"
  using load_modules_append [of env "[e]" es st] by simp

lemma load_entry_ok: "dir_ok (sys_root st) \<Longrightarrow> dir_ok (sys_root (load_modules env [(nm, f)] st))"
  by (simp add: Let_def construct_ok split: option.splits)

lemma load_modules_ok: "dir_ok (sys_root st) \<Longrightarrow> dir_ok (sys_root (load_modules env es st))"
proof (induction es arbitrary: st)
  case Nil
  then show ?case by simp
next
  case (Cons e es)
  obtain nm f where e: "e = (nm, f)" by (cases e)
  from Cons.prems have "dir_ok (sys_root (load_modules env [e] st))"
    unfolding e by (rule load_entry_ok)
  from Cons.IH [OF this] show ?case by (subst load_modules_Cons)
qed

lemma load_init_ok: "dir_ok (sys_root load_init)"
  by (simp add: load_init_def dir_ok_def)

lemma nodes_under_ok:
  "node_ok t \<Longrightarrow> (anc, n) \<in> set (nodes_under A t) \<Longrightarrow>
   node_ok n \<and> (\<forall>a\<in>set anc. a \<in> set A \<or> status a = IS_INTER \<or> status a = IS_INTER OR IS_SKEL)"
proof (induction A t arbitrary: anc n rule: nodes_under.induct)
  case (1 A m nm ty s cs)
  from "1.prems"(2) consider "(anc, n) = (A, Node m nm ty s cs)"
    | c where "c \<in> set cs" "(anc, n) \<in> set (nodes_under (Node m nm ty s cs # A) c)"
    by auto
  then show ?case
  proof cases
    case 1
    with "1.prems"(1) show ?thesis by simp
  next
    case 2
    with "1.prems"(1) have okc: "node_ok c" and s: "s = IS_INTER \<or> s = IS_INTER OR IS_SKEL"
      by auto
    from "1.IH" [OF 2(1) okc 2(2)] s show ?thesis by auto
  qed
qed

lemma newfile_tree:
  "sys_root (load_modules env_example newfile_image load_init) =
     Node None ''/system'' DT_UNKNOWN IS_INTER
       [Node (Some ''A'') ''etc'' DT_DIR (IS_INTER OR IS_SKEL)
          [Node (Some ''A'') ''pipe'' DT_FIFO 0 [],
           Node (Some ''A'') ''new.conf'' DT_REG IS_MODULE []]]"
  by (simp add: env_example_def newfile_image_def newfile_module_def load_init_def Let_def
      fs_access_def insert_child_def set_children_def set_status_def get_full_path_def
      IS_INTER_def IS_SKEL_def IS_MODULE_def)

text \<open>
  Claim C1, as amended. When a node is inserted into a parent whose children already hold
  a node of the same name (the first such child is at index \<open>i\<close>), a new node of
  strictly higher status takes the slot of the old one, whose subtree leaves the tree;
  with a lower or an equal status the parent is unchanged, the old node is returned and
  the new one is dropped. In particular a child whose status is MODULE is never displaced
  or changed by the entries a later module brings to the same directory: of two modules
  that provide the same regular file, the first one enumerated keeps the leaf
  (first writer wins on equal precedence).
\<close>

theorem insert_child_precedence:
  "(i < length (children p) \<and> name (children p ! i) = name c \<and>
    (\<forall>j<i. name (children p ! j) \<noteq> name c) \<longrightarrow>
      insert_child p c =
        (if status (children p ! i) < status c
         then (set_children ((children p)[i := c]) p, i) else (p, i))) \<and>
   (k < length (children parent) \<and> status (children parent ! k) = IS_MODULE \<longrightarrow>
      k < length (children (construct_tree env modl dir anc parent)) \<and>
      children (construct_tree env modl dir anc parent) ! k = children parent ! k)"
proof (intro conjI impI)
  assume "i < length (children p) \<and> name (children p ! i) = name c \<and>
    (\<forall>j<i. name (children p ! j) \<noteq> name c)"
  then have "insert_scan (children p) c =
      (if status (children p ! i) < status c then ((children p)[i := c], i) else (children p, i))"
    by (intro insert_scan_first_duplicate) simp_all
  then show "insert_child p c =
        (if status (children p ! i) < status c
         then (set_children ((children p)[i := c]) p, i) else (p, i))"
    by (simp add: insert_child_def set_children_same)
next
  assume a: "k < length (children parent) \<and> status (children parent ! k) = IS_MODULE"
  with construct_keeps_module(1) [of k parent env modl dir anc]
  show "k < length (children (construct_tree env modl dir anc parent))"
    and "children (construct_tree env modl dir anc parent) ! k = children parent ! k"
    by simp_all
qed

theorem insert_child_precedence_witness:
  "insert_child etc_node (Node (Some ''B'') ''hosts'' DT_REG IS_MODULE []) = (etc_node, 0) \<and>
   children (construct_tree env_example ''B'' (FsDir [(''hosts'', FsFile DT_REG)]) [''/system''] etc_node) ! 0 =
     Node (Some ''A'') ''hosts'' DT_REG IS_MODULE []"
  using insert_child_precedence [of 0 etc_node "Node (Some ''B'') ''hosts'' DT_REG IS_MODULE []"
     0 etc_node env_example "''B''" "FsDir [(''hosts'', FsFile DT_REG)]" "[''/system'']"]
  by (simp add: etc_node_def)

text \<open>
  The claim as stated (the leaf belongs to the module enumerated last) fails for the
  modules \<^verbatim>\<open>A\<close> and \<^verbatim>\<open>B\<close> that both provide \<^verbatim>\<open>system/etc/hosts\<close>: the
  leaf of the tree built from \<^verbatim>\<open>A\<close>, then \<^verbatim>\<open>B\<close>, belongs to \<^verbatim>\<open>A\<close>.
\<close>

theorem insert_child_precedence_counterexample:
  "sys_root (load_modules env_example collision_image load_init) =
     Node None ''/system'' DT_UNKNOWN IS_INTER
       [Node (Some ''A'') ''etc'' DT_DIR IS_INTER
          [Node (Some ''A'') ''hosts'' DT_REG IS_MODULE []]] \<and>
   module (children (children (sys_root (load_modules env_example collision_image load_init)) ! 0) ! 0)
     \<noteq> Some ''B''"
  by (simp add: env_example_def collision_image_def hosts_module_def load_init_def Let_def
      fs_access_def insert_child_def set_children_def set_status_def get_full_path_def
      IS_INTER_def IS_SKEL_def IS_MODULE_def)

text \<open>
  Claim C2, as amended. In the tree the module loop of \<^verbatim>\<open>post_fs_data\<close> builds with
  \<open>construct_tree\<close>, from any image and any live file system, a node whose status
  contains SKEL has the status INTER with SKEL, and each of its ancestors up to the root
  has the status INTER or INTER with SKEL: SKEL is set on the directory whose entry is
  cloned and is not passed on to the parent of that directory, and no ancestor is MODULE.
\<close>

theorem skel_ancestors:
  "\<forall>(anc, n)\<in>set (nodes_under [] (sys_root (load_modules env es load_init))).
     status n AND IS_SKEL \<noteq> 0 \<longrightarrow>
       status n = IS_INTER OR IS_SKEL \<and>
       (\<forall>a\<in>set anc. status a = IS_INTER \<or> status a = IS_INTER OR IS_SKEL)"
proof -
  have ok: "node_ok (sys_root (load_modules env es load_init))"
    by (intro dir_ok_node_ok load_modules_ok load_init_ok)
  show ?thesis
  proof (clarify, intro conjI)
    fix anc n
    assume m: "(anc, n) \<in> set (nodes_under [] (sys_root (load_modules env es load_init)))"
      and s: "status n AND IS_SKEL \<noteq> 0"
    from nodes_under_ok [OF ok m] have n: "node_ok n"
      and a: "\<forall>a\<in>set anc. status a = IS_INTER \<or> status a = IS_INTER OR IS_SKEL" by auto
    from n s show "status n = IS_INTER OR IS_SKEL"
      by (auto simp: node_ok_alt [of n] IS_INTER_def IS_SKEL_def IS_MODULE_def)
    from a show "\<forall>a\<in>set anc. status a = IS_INTER \<or> status a = IS_INTER OR IS_SKEL" .
  qed
qed

theorem skel_ancestors_witness:
  "([Node None ''/system'' DT_UNKNOWN IS_INTER
       [Node (Some ''A'') ''etc'' DT_DIR (IS_INTER OR IS_SKEL)
          [Node (Some ''A'') ''pipe'' DT_FIFO 0 [],
           Node (Some ''A'') ''new.conf'' DT_REG IS_MODULE []]]],
    Node (Some ''A'') ''etc'' DT_DIR (IS_INTER OR IS_SKEL)
          [Node (Some ''A'') ''pipe'' DT_FIFO 0 [],
           Node (Some ''A'') ''new.conf'' DT_REG IS_MODULE []])
     \<in> set (nodes_under [] (sys_root (load_modules env_example newfile_image load_init))) \<and>
   (IS_INTER OR IS_SKEL) AND IS_SKEL \<noteq> 0 \<and>
   status (Node None ''/system'' DT_UNKNOWN IS_INTER
       [Node (Some ''A'') ''etc'' DT_DIR (IS_INTER OR IS_SKEL)
          [Node (Some ''A'') ''pipe'' DT_FIFO 0 [],
           Node (Some ''A'') ''new.conf'' DT_REG IS_MODULE []]]) = IS_INTER"
  using skel_ancestors [of env_example newfile_image]
  by (simp add: newfile_tree IS_INTER_def IS_SKEL_def)

text \<open>
  The claim as stated (every ancestor of a SKEL node is SKEL or MODULE) fails for a module
  that adds the new file \<^verbatim>\<open>system/etc/new.conf\<close>: \<^verbatim>\<open>etc\<close> carries SKEL and
  its parent, the root, is INTER, which neither equals nor contains SKEL or MODULE.
\<close>

theorem skel_ancestors_counterexample:
  "sys_root (load_modules env_example newfile_image load_init) =
     Node None ''/system'' DT_UNKNOWN IS_INTER
       [Node (Some ''A'') ''etc'' DT_DIR (IS_INTER OR IS_SKEL)
          [Node (Some ''A'') ''pipe'' DT_FIFO 0 [],
           Node (Some ''A'') ''new.conf'' DT_REG IS_MODULE []]] \<and>
   (IS_INTER OR IS_SKEL) AND IS_SKEL \<noteq> 0 \<and>
   IS_INTER \<noteq> IS_SKEL \<and> IS_INTER \<noteq> IS_MODULE \<and> IS_INTER AND (IS_SKEL OR IS_MODULE) = 0"
  by (simp add: newfile_tree) (simp add: IS_INTER_def IS_SKEL_def IS_MODULE_def)

text \<open>
  Claim C3. For an entry \<open>(nm, f)\<close> of a module directory other than \<^verbatim>\<open>.\<close> and
  \<^verbatim>\<open>..\<close>, let \<open>clone\<close> say that the entry is a symbolic link, or the live path
  does not exist, or the live path is a symbolic link and the entry is not \<^verbatim>\<open>vendor\<close>
  under the parent named \<^verbatim>\<open>/system\<close>. Then the loop of \<open>construct_tree\<close> inserts a
  node whose status is MODULE when \<open>clone\<close> holds, and SKEL is put into the status of
  the parent exactly then; otherwise the status is MODULE for a directory with a
  \<^verbatim>\<open>.replace\<close> entry, INTER for a directory without one, MODULE for a regular file (and
  0 for anything else). The recursion enters the node \<open>insert_child\<close> returns only when
  its status contains SKEL or INTER. When the parent had no child of that name, the
  parent after the entry is given in full: the new node is its last child, and only an
  INTER node was entered.
\<close>

theorem construct_entry_rule:
  assumes "nm \<noteq> ''.''" and "nm \<noteq> ''..''"
    and "buf = get_full_path anc parent @ ''/'' @ nm"
    and "clone \<longleftrightarrow> d_type f = DT_LNK \<or> \<not> live_access env buf \<or>
           (live_islnk env buf \<and> \<not> (name parent = ''/system'' \<and> nm = ''vendor''))"
    and "st = (if clone then IS_MODULE
               else if d_type f = DT_DIR then
                 (if fs_access f ''.replace'' then IS_MODULE else IS_INTER)
               else if d_type f = DT_REG then IS_MODULE
               else 0)"
    and "insert_child (if clone then set_status (status parent OR IS_SKEL) parent else parent)
           (Node (Some modl) nm (d_type f) st []) = (parent2, i)"
  shows "construct_entries env modl ((nm, f) # es) anc parent =
           construct_entries env modl es anc
             (if status (children parent2 ! i) AND (IS_SKEL OR IS_INTER) \<noteq> 0
              then set_children
                     ((children parent2)
                        [i := construct_tree env modl f (name parent # anc) (children parent2 ! i)])
                     parent2
              else parent2) \<and>
         ((\<forall>e\<in>set (children parent). name e \<noteq> nm) \<longrightarrow>
            construct_entries env modl [(nm, f)] anc parent =
              Node (module parent) (name parent) (type parent)
                (if clone then status parent OR IS_SKEL else status parent)
                (children parent @
                   [if st = IS_INTER
                    then construct_tree env modl f (name parent # anc)
                           (Node (Some modl) nm (d_type f) IS_INTER [])
                    else Node (Some modl) nm (d_type f) st []]))"
proof -
  define clone' where "clone' = (if d_type f = DT_LNK \<or> \<not> live_access env buf then True
               else if name parent \<noteq> ''/system'' \<or> nm \<noteq> ''vendor'' then live_islnk env buf
               else False)"
  have cl: "clone' = clone" using assms(4) by (auto simp: clone'_def)
  define parent1 where "parent1 = (if clone' then set_status (status parent OR IS_SKEL) parent else parent)"
  define st' where "st' = (if clone' then IS_MODULE
               else if d_type f = DT_DIR then
                 (if fs_access f ''.replace'' then IS_MODULE else IS_INTER)
               else if d_type f = DT_REG then IS_MODULE
               else 0)"
  have st: "st' = st" using assms(5) cl by (simp add: st'_def)
  define node where "node = Node (Some modl) nm (d_type f) st' []"
  have ins: "insert_child parent1 node = (parent2, i)"
    using assms(6) by (simp add: parent1_def node_def cl st)
  define child where "child = children parent2 ! i"
  define parent3 where "parent3 = (if status child AND (IS_SKEL OR IS_INTER) \<noteq> 0 then
                   set_children
                     ((children parent2)[i := construct_tree env modl f (name parent # anc) child])
                     parent2
                 else parent2)"
  have step: "construct_entries env modl ((nm, f) # es') anc parent = construct_entries env modl es' anc parent3" for es'
    by (rule construct_entries_step [OF assms(1,2,3) clone'_def parent1_def st'_def node_def ins child_def parent3_def])
  have first: "construct_entries env modl ((nm, f) # es) anc parent =
           construct_entries env modl es anc
             (if status (children parent2 ! i) AND (IS_SKEL OR IS_INTER) \<noteq> 0
              then set_children
                     ((children parent2)
                        [i := construct_tree env modl f (name parent # anc) (children parent2 ! i)])
                     parent2
              else parent2)"
    using step [of es] by (simp add: parent3_def child_def)
  have second: "construct_entries env modl [(nm, f)] anc parent =
              Node (module parent) (name parent) (type parent)
                (if clone then status parent OR IS_SKEL else status parent)
                (children parent @
                   [if st = IS_INTER
                    then construct_tree env modl f (name parent # anc)
                           (Node (Some modl) nm (d_type f) IS_INTER [])
                    else Node (Some modl) nm (d_type f) st []])"
    if fresh: "\<forall>e\<in>set (children parent). name e \<noteq> nm"
  proof -
    have c1: "children parent1 = children parent"
      by (simp add: parent1_def set_status_def)
    from fresh have "insert_scan (children parent1) node = (children parent @ [node], length (children parent))"
      unfolding c1 by (intro insert_scan_no_duplicate) (simp add: node_def)
    with ins have p2: "parent2 = set_children (children parent @ [node]) parent1" and i: "i = length (children parent)"
      by (simp_all add: insert_child_def)
    have ch: "child = node" by (simp add: child_def p2 i set_children_def)
    have stv: "st = IS_MODULE \<or> st = IS_INTER \<or> st = 0" using assms(5) by auto
    have iff: "status node AND (IS_SKEL OR IS_INTER) \<noteq> 0 \<longleftrightarrow> st = IS_INTER"
      using stv by (auto simp: node_def st IS_MODULE_def IS_INTER_def IS_SKEL_def)
    show ?thesis
      using step [of "[]"] iff
      by (cases parent) (auto simp: parent3_def ch p2 i set_children_def parent1_def set_status_def cl node_def st)
  qed
  from first second show ?thesis by blast
qed

theorem construct_entry_rule_witness:
  "construct_entries env_example ''A'' [(''new.conf'', FsFile DT_REG)] [''/system'']
     (Node (Some ''A'') ''etc'' DT_DIR IS_INTER []) =
     Node (Some ''A'') ''etc'' DT_DIR (IS_INTER OR IS_SKEL)
       [Node (Some ''A'') ''new.conf'' DT_REG IS_MODULE []] \<and>
   construct_entries env_example ''A'' [(''etc'', FsDir [(''hosts'', FsFile DT_REG)])] []
     (Node None ''/system'' DT_UNKNOWN IS_INTER []) =
     Node None ''/system'' DT_UNKNOWN IS_INTER
       [Node (Some ''A'') ''etc'' DT_DIR IS_INTER [Node (Some ''A'') ''hosts'' DT_REG IS_MODULE []]]"
proof -
  have 1: "construct_entries env_example ''A'' [(''new.conf'', FsFile DT_REG)] [''/system'']
     (Node (Some ''A'') ''etc'' DT_DIR IS_INTER []) =
     Node (Some ''A'') ''etc'' DT_DIR (IS_INTER OR IS_SKEL)
       [Node (Some ''A'') ''new.conf'' DT_REG IS_MODULE []]"
    using construct_entry_rule [of "''new.conf''" "''/system/etc/new.conf''" "[''/system'']"
        "Node (Some ''A'') ''etc'' DT_DIR IS_INTER []" True "FsFile DT_REG" env_example IS_MODULE
        "''A''" "Node (Some ''A'') ''etc'' DT_DIR (IS_INTER OR IS_SKEL)
           [Node (Some ''A'') ''new.conf'' DT_REG IS_MODULE []]" 0 "[]"]
    by (simp add: env_example_def get_full_path_def insert_child_def set_children_def
        set_status_def IS_MODULE_def IS_INTER_def)
  have 2: "construct_entries env_example ''A'' [(''etc'', FsDir [(''hosts'', FsFile DT_REG)])] []
     (Node None ''/system'' DT_UNKNOWN IS_INTER []) =
     Node None ''/system'' DT_UNKNOWN IS_INTER
       [Node (Some ''A'') ''etc'' DT_DIR IS_INTER [Node (Some ''A'') ''hosts'' DT_REG IS_MODULE []]]"
    using construct_entry_rule [of "''etc''" "''/system/etc''" "[]"
        "Node None ''/system'' DT_UNKNOWN IS_INTER []" False "FsDir [(''hosts'', FsFile DT_REG)]"
        env_example IS_INTER
        "''A''" "Node None ''/system'' DT_UNKNOWN IS_INTER [Node (Some ''A'') ''etc'' DT_DIR IS_INTER []]" 0 "[]"]
    by (simp add: env_example_def get_full_path_def insert_child_def set_children_def
        set_status_def IS_MODULE_def IS_INTER_def IS_SKEL_def fs_access_def Let_def)
  from 1 2 show ?thesis by simp
qed

subsection \<open>Simple mount\<close>

lemma simple_effects_live:
  "\<forall>e\<in>set (simple_mount env staged path).
     \<exists>p. live_access env p \<and> (e = CloneAttr p (CACHEMOUNT env @ p) \<or> e = BindMount (CACHEMOUNT env @ p) p)"
  "\<forall>e\<in>set (simple_entries env es path).
     \<exists>p. live_access env p \<and> (e = CloneAttr p (CACHEMOUNT env @ p) \<or> e = BindMount (CACHEMOUNT env @ p) p)"
  by (induction env staged path and env es path rule: simple_mount_simple_entries.induct)
     (auto simp: Let_def)

lemma simple_entries_Cons_suffix:
  "\<exists>h. simple_entries env ((n, g) # es) path = h @ simple_entries env es path"
proof -
  have "simple_entries env ((n, g) # es) path = [] @ simple_entries env es path \<or>
        simple_entries env ((n, g) # es) path =
          simple_mount env g (path @ ''/'' @ n) @ simple_entries env es path \<or>
        simple_entries env ((n, g) # es) path =
          [CloneAttr (path @ ''/'' @ n) (CACHEMOUNT env @ path @ ''/'' @ n),
           BindMount (CACHEMOUNT env @ path @ ''/'' @ n) (path @ ''/'' @ n)] @
          simple_entries env es path"
    by (simp add: Let_def)
  then show ?thesis by blast
qed

lemma infix_extend: "\<exists>pre post. xs = pre @ m @ post \<Longrightarrow> \<exists>pre post. a @ xs @ b = pre @ m @ post"
proof -
  assume "\<exists>pre post. xs = pre @ m @ post"
  then obtain pre post where "xs = pre @ m @ post" by blast
  then have "a @ xs @ b = (a @ pre) @ m @ (post @ b)" by simp
  then show ?thesis by blast
qed

lemma walked_mounted:
  "(g, p) \<in> set (walked env staged path) \<Longrightarrow> d_type g = DT_REG \<Longrightarrow> live_access env p \<Longrightarrow>
   \<exists>pre post. simple_mount env staged path =
     pre @ [CloneAttr p (CACHEMOUNT env @ p), BindMount (CACHEMOUNT env @ p) p] @ post"
  "(g, p) \<in> set (walked_entries env es path) \<Longrightarrow> d_type g = DT_REG \<Longrightarrow> live_access env p \<Longrightarrow>
   \<exists>pre post. simple_entries env es path =
     pre @ [CloneAttr p (CACHEMOUNT env @ p), BindMount (CACHEMOUNT env @ p) p] @ post"
proof (induction env staged path and env es path rule: walked_walked_entries.induct)
  case (6 env nm f es path)
  let ?m = "[CloneAttr p (CACHEMOUNT env @ p), BindMount (CACHEMOUNT env @ p) p]"
  show ?case
  proof (cases "nm = ''.'' \<or> nm = ''..''")
    case True
    with 6 show ?thesis by simp
  next
    case False
    from "6.prems"(1) False consider
        (here) "(g, p) = (f, path @ ''/'' @ nm)"
      | (deep) "live_access env (path @ ''/'' @ nm)" "d_type f = DT_DIR"
               "(g, p) \<in> set (walked env f (path @ ''/'' @ nm))"
      | (rest) "(g, p) \<in> set (walked_entries env es path)"
      by (auto split: if_splits)
    then show ?thesis
    proof cases
      case here
      with "6.prems" False have "simple_entries env ((nm, f) # es) path =
          [] @ ?m @ simple_entries env es path"
        by (simp add: Let_def)
      then show ?thesis by blast
    next
      case deep
      from "6.IH"(2) [OF False _ deep(3) "6.prems"(2,3)] deep(1,2)
      have "\<exists>pre post. simple_mount env f (path @ ''/'' @ nm) = pre @ ?m @ post" by simp
      from infix_extend [OF this, of "[]" "simple_entries env es path"] deep(1,2) False
      show ?thesis by (simp add: Let_def)
    next
      case rest
      from "6.IH"(3) [OF False rest "6.prems"(2,3)]
      have r: "\<exists>pre post. simple_entries env es path = pre @ ?m @ post" .
      obtain h where "simple_entries env ((nm, f) # es) path = h @ simple_entries env es path"
        using simple_entries_Cons_suffix by blast
      with infix_extend [OF r, of h "[]"] show ?thesis by simp
    qed
  qed
qed simp_all

text \<open>
  Claim C8. Every call \<open>simple_mount\<close> makes clones the attributes of, or bind-mounts
  over, a live path that exists, from the staged file of the same path, so no path is
  created. For a staged regular file that the walk reads for the live path \<open>p\<close>, the
  staged file is bind-mounted over \<open>p\<close> if and only if \<open>p\<close> exists, and then the
  mount comes right after the attributes of \<open>p\<close> were cloned onto the staged file.
\<close>

theorem simple_mount_existing_only:
  "(\<forall>e\<in>set (simple_mount env staged path).
      \<exists>p. live_access env p \<and>
          (e = CloneAttr p (CACHEMOUNT env @ p) \<or> e = BindMount (CACHEMOUNT env @ p) p)) \<and>
   ((f, p) \<in> set (walked env staged path) \<and> d_type f = DT_REG \<longrightarrow>
      (BindMount (CACHEMOUNT env @ p) p \<in> set (simple_mount env staged path) \<longleftrightarrow> live_access env p) \<and>
      (live_access env p \<longrightarrow>
         (\<exists>pre post. simple_mount env staged path =
            pre @ [CloneAttr p (CACHEMOUNT env @ p), BindMount (CACHEMOUNT env @ p) p] @ post)))"
proof (intro conjI impI)
  show "\<forall>e\<in>set (simple_mount env staged path).
      \<exists>p. live_access env p \<and>
          (e = CloneAttr p (CACHEMOUNT env @ p) \<or> e = BindMount (CACHEMOUNT env @ p) p)"
    by (rule simple_effects_live)
next
  assume a: "(f, p) \<in> set (walked env staged path) \<and> d_type f = DT_REG"
  show "BindMount (CACHEMOUNT env @ p) p \<in> set (simple_mount env staged path) \<longleftrightarrow> live_access env p"
  proof
    assume "BindMount (CACHEMOUNT env @ p) p \<in> set (simple_mount env staged path)"
    with simple_effects_live(1) [of env staged path] show "live_access env p" by auto
  next
    assume "live_access env p"
    with walked_mounted(1) a obtain pre post where "simple_mount env staged path =
            pre @ [CloneAttr p (CACHEMOUNT env @ p), BindMount (CACHEMOUNT env @ p) p] @ post" by blast
    then show "BindMount (CACHEMOUNT env @ p) p \<in> set (simple_mount env staged path)" by simp
  qed
next
  assume "(f, p) \<in> set (walked env staged path) \<and> d_type f = DT_REG" "live_access env p"
  with walked_mounted(1) show "\<exists>pre post. simple_mount env staged path =
            pre @ [CloneAttr p (CACHEMOUNT env @ p), BindMount (CACHEMOUNT env @ p) p] @ post" by blast
qed

theorem simple_mount_existing_only_witness:
  "walked env_example staged_example ''/system'' =
     [(FsDir [(''hosts'', FsFile DT_REG), (''new.conf'', FsFile DT_REG)], ''/system/etc''),
      (FsFile DT_REG, ''/system/etc/hosts''), (FsFile DT_REG, ''/system/etc/new.conf'')] \<and>
   live_access env_example ''/system/etc/hosts'' \<and>
   BindMount ''/cache/magisk_mount/system/etc/hosts'' ''/system/etc/hosts''
     \<in> set (simple_mount env_example staged_example ''/system'') \<and>
   \<not> live_access env_example ''/system/etc/new.conf'' \<and>
   BindMount ''/cache/magisk_mount/system/etc/new.conf'' ''/system/etc/new.conf''
     \<notin> set (simple_mount env_example staged_example ''/system'')"
proof -
  have w: "walked env_example staged_example ''/system'' =
     [(FsDir [(''hosts'', FsFile DT_REG), (''new.conf'', FsFile DT_REG)], ''/system/etc''),
      (FsFile DT_REG, ''/system/etc/hosts''), (FsFile DT_REG, ''/system/etc/new.conf'')]"
    by (simp add: staged_example_def env_example_def)
  have l: "live_access env_example ''/system/etc/hosts''" "\<not> live_access env_example ''/system/etc/new.conf''"
    by (simp_all add: env_example_def)
  from simple_mount_existing_only [of env_example staged_example "''/system''" "FsFile DT_REG" "''/system/etc/hosts''"]
    simple_mount_existing_only [of env_example staged_example "''/system''" "FsFile DT_REG" "''/system/etc/new.conf''"]
    w l
  show ?thesis by (simp add: env_example_def)
qed

subsection \<open>Skeleton cloning\<close>

lemma kept_alt:
  "kept n n' = (module n' = module n \<and> name n' = name n \<and> type n' = type n \<and>
                status n' = status n \<and> kept_list (children n) (children n'))"
  by (cases n) simp

lemma kept_list_refl_aux: "(\<And>c. c \<in> set cs \<Longrightarrow> kept c c) \<Longrightarrow> kept_list cs cs"
  by (induction cs) auto

lemma kept_refl: "kept n n"
  by (induction n) (simp add: kept_list_refl_aux)

lemma kept_list_compose:
  "length cs0 \<le> length cs1 \<Longrightarrow>
   (\<forall>i<length cs0. status (cs0 ! i) \<noteq> 0 \<longrightarrow> cs1 ! i = cs0 ! i) \<Longrightarrow>
   list_all2 kept cs1 cs' \<Longrightarrow> kept_list cs0 cs'"
proof (induction cs0 arbitrary: cs1 cs')
  case Nil
  then show ?case by simp
next
  case (Cons c cs0)
  from Cons.prems(1) obtain d ds where cs1: "cs1 = d # ds" by (cases cs1) auto
  with Cons.prems(3) obtain d' ds' where cs': "cs' = d' # ds'" and dd: "kept d d'" and r: "list_all2 kept ds ds'"
    by (cases cs') auto
  from Cons.prems(2) cs1 have h: "status c \<noteq> 0 \<longrightarrow> d = c" by auto
  from Cons.prems(2) cs1 have t: "\<forall>i<length cs0. status (cs0 ! i) \<noteq> 0 \<longrightarrow> ds ! i = cs0 ! i"
    by auto
  from Cons.prems(1) cs1 have "length cs0 \<le> length ds" by simp
  from Cons.IH [OF this t r] h dd show ?case by (auto simp: cs')
qed

lemma insert_scan_names:
  "insert_scan cs c = (cs', k) \<Longrightarrow>
   map name cs' = (if name c \<in> name ` set cs then map name cs else map name cs @ [name c])"
  by (induction cs arbitrary: cs' k) (auto split: if_splits prod.splits)

lemma insert_scan_length: "insert_scan cs c = (cs', k) \<Longrightarrow> length cs \<le> length cs'"
  by (induction cs arbitrary: cs' k) (auto split: if_splits prod.splits)

lemma not_less_dummy: "s \<noteq> 0 \<Longrightarrow> \<not> s < IS_DUMMY"
  by (simp add: IS_DUMMY_def word_less_1)

lemma dummies_added_refl: "distinct (map name cs) \<Longrightarrow> dummies_added cs cs"
  by (simp add: dummies_added_def)

lemma dummies_added_step:
  assumes "dummies_added cs0 cs" and "is_dummy d" and "insert_scan cs d = (cs', k)"
  shows "dummies_added cs0 cs'"
proof -
  have len: "length cs \<le> length cs'" using assms(3) by (rule insert_scan_length)
  have names: "map name cs' = (if name d \<in> name ` set cs then map name cs else map name cs @ [name d])"
    using assms(3) by (rule insert_scan_names)
  have d1: "distinct (map name cs')"
    using assms(1) names by (auto simp: dummies_added_def)
  have keep: "cs' ! i = cs0 ! i" if "i < length cs0" "status (cs0 ! i) \<noteq> 0" for i
  proof -
    from that assms(1) have i: "i < length cs" and e: "cs ! i = cs0 ! i"
      by (auto simp: dummies_added_def)
    from that e assms(2) have "\<not> status (cs ! i) < status d"
      by (simp add: is_dummy_def not_less_dummy)
    from insert_scan_keeps [OF assms(3) i this] e show ?thesis by simp
  qed
  have nm: "name (cs' ! i) = name (cs0 ! i)" if "i < length cs0" for i
  proof -
    from that assms(1) have i: "i < length cs" and e: "name (cs ! i) = name (cs0 ! i)"
      by (auto simp: dummies_added_def)
    from i len have "map name cs' ! i = map name cs ! i"
      using names by (auto simp: nth_append)
    with i len e show ?thesis by simp
  qed
  have mem: "\<forall>c\<in>set cs'. c \<in> set cs0 \<or> is_dummy c"
    using insert_scan_set [OF assms(3)] assms(1,2) by (auto simp: dummies_added_def)
  from assms(1) len d1 keep nm mem show ?thesis
    by (simp add: dummies_added_def)
qed

lemma insert_dummies_attrs:
  "module (insert_dummies node es) = module node \<and> name (insert_dummies node es) = name node \<and>
   type (insert_dummies node es) = type node \<and> status (insert_dummies node es) = status node"
  by (induction node es rule: insert_dummies.induct)
     (auto simp: insert_child_def set_children_def split: prod.splits)

lemma insert_dummies_added:
  "dummies_added cs0 (children node) \<Longrightarrow> dummies_added cs0 (children (insert_dummies node es))"
proof (induction node es rule: insert_dummies.induct)
  case (1 node)
  then show ?case by simp
next
  case (2 node nm ty es)
  show ?case
  proof (cases "nm = ''.'' \<or> nm = ''..''")
    case True
    with 2 show ?thesis by simp
  next
    case False
    obtain cs' k where sc: "insert_scan (children node) (Node None nm ty IS_DUMMY []) = (cs', k)"
      by force
    have "dummies_added cs0 cs'"
      by (rule dummies_added_step [OF "2.prems" _ sc]) (simp add: is_dummy_def)
    with "2.IH"(2) [OF False] sc False show ?thesis
      by (simp add: insert_child_def set_children_def)
  qed
qed

lemma insert_dummies_keeps:
  "i < length (children node) \<Longrightarrow> status (children node ! i) \<noteq> 0 \<Longrightarrow>
   i < length (children (insert_dummies node es)) \<and>
   children (insert_dummies node es) ! i = children node ! i"
proof (induction node es rule: insert_dummies.induct)
  case (1 node)
  then show ?case by simp
next
  case (2 node nm ty es)
  show ?case
  proof (cases "nm = ''.'' \<or> nm = ''..''")
    case True
    with 2 show ?thesis by simp
  next
    case False
    obtain cs' k where sc: "insert_scan (children node) (Node None nm ty IS_DUMMY []) = (cs', k)"
      by force
    from "2.prems" have "\<not> status (children node ! i) < status (Node None nm ty IS_DUMMY [])"
      by (simp add: not_less_dummy)
    from insert_scan_keeps [OF sc "2.prems"(1) this]
    have k: "i < length cs'" "cs' ! i = children node ! i" by simp_all
    have n1: "children (fst (insert_child node (Node None nm ty IS_DUMMY []))) = cs'"
      using sc by (simp add: insert_child_def set_children_def)
    from "2.IH"(2) [OF False] k "2.prems"(2) n1 False show ?thesis
      by simp
  qed
qed

lemma insert_dummies_length: "length (children node) \<le> length (children (insert_dummies node es))"
proof (induction node es rule: insert_dummies.induct)
  case (1 node)
  then show ?case by simp
next
  case (2 node nm ty es)
  show ?case
  proof (cases "nm = ''.'' \<or> nm = ''..''")
    case True
    with 2 show ?thesis by simp
  next
    case False
    obtain cs' k where sc: "insert_scan (children node) (Node None nm ty IS_DUMMY []) = (cs', k)"
      by force
    from insert_scan_length [OF sc] "2.IH"(2) [OF False] sc False show ?thesis
      by (simp add: insert_child_def set_children_def)
  qed
qed

declare clone_skeleton.simps [simp del]

lemma clone_kept:
  "kept node (fst (clone_skeleton env anc node buf2))"
  "list_all2 kept cs (fst (clone_children env anc fp cs buf2))"
proof (induction env anc node buf2 and env anc fp cs buf2 rule: clone_skeleton_clone_children.induct)
  case (1 env anc node buf2)
  show ?case
  proof (cases "mirror_readdir env (MIRRDIR env @ get_full_path anc node)")
    case None
    then show ?thesis by (simp add: clone_skeleton.simps kept_refl)
  next
    case (Some es)
    define node1 where "node1 = insert_dummies node es"
    define cs' where "cs' = fst (clone_children env (name node # anc) (get_full_path anc node) (children node1) buf2)"
    from "1.IH" [OF refl Some node1_def refl refl]
    have all: "list_all2 kept (children node1) cs'" by (simp add: cs'_def)
    have res: "fst (clone_skeleton env anc node buf2) = set_children cs' node1"
      using Some by (simp add: clone_skeleton.simps Let_def node1_def cs'_def split: prod.splits)
    have "kept_list (children node) cs'"
    proof (rule kept_list_compose [OF _ _ all])
      show "length (children node) \<le> length (children node1)"
        unfolding node1_def by (rule insert_dummies_length)
      show "\<forall>i<length (children node). status (children node ! i) \<noteq> 0 \<longrightarrow> children node1 ! i = children node ! i"
        unfolding node1_def using insert_dummies_keeps by blast
    qed
    with insert_dummies_attrs [of node es] show ?thesis
      by (simp add: res kept_alt [of node] set_children_def node1_def)
  qed
next
  case (2 env anc fp buf2)
  show ?case by simp
next
  case (3 env anc fp child rest buf2)
  show ?case
    using "3.IH" by (auto simp: Let_def kept_refl split: prod.splits)
qed

lemma clone_children_Cons:
  "\<exists>child' b. fst (clone_children env anc fp (child # rest) buf2) =
       child' # fst (clone_children env anc fp rest b) \<and>
     (child' = child \<or>
      (status child AND (IS_SKEL OR IS_INTER) \<noteq> 0 \<and>
       (\<exists>b0. child' = fst (clone_skeleton env anc child b0))))"
proof -
  have "fst (clone_children env anc fp (child # rest) buf2) =
          child # fst (clone_children env anc fp rest buf2) \<or>
        fst (clone_children env anc fp (child # rest) buf2) =
          child # fst (clone_children env anc fp rest
            (MOUNTPOINT env @ ''/'' @ module_str (module child) @ fp @ ''/'' @ name child)) \<or>
        fst (clone_children env anc fp (child # rest) buf2) =
          child # fst (clone_children env anc fp rest (MIRRDIR env @ fp @ ''/'' @ name child)) \<or>
        (status child AND (IS_SKEL OR IS_INTER) \<noteq> 0 \<and>
         fst (clone_children env anc fp (child # rest) buf2) =
           fst (clone_skeleton env anc child buf2) #
           fst (clone_children env anc fp rest (fst (snd (clone_skeleton env anc child buf2)))))"
    by (simp add: Let_def split: prod.splits)
  then show ?thesis by blast
qed

lemma clone_children_cloned:
  "list_all2 cloned cs (fst (clone_children env anc fp cs buf2))"
proof (induction cs arbitrary: buf2)
  case Nil
  show ?case by simp
next
  case (Cons child rest)
  from clone_children_Cons [of env anc fp child rest buf2] obtain child' b where
    eq: "fst (clone_children env anc fp (child # rest) buf2) =
       child' # fst (clone_children env anc fp rest b)"
    and c: "child' = child \<or>
      (status child AND (IS_SKEL OR IS_INTER) \<noteq> 0 \<and>
       (\<exists>b0. child' = fst (clone_skeleton env anc child b0)))"
    by blast
  from c have "cloned child child'"
    using clone_kept(1) [of child env anc] by (auto simp: cloned_def)
  with Cons.IH [of b] show ?case unfolding eq by simp
qed

lemma dummy_children_origin:
  assumes "distinct (map name (children node))"
    and "c \<in> set (children (fst (clone_skeleton env anc node buf2)))"
    and "status c = IS_DUMMY"
  shows "c \<in> set (children node) \<or> (\<forall>e\<in>set (children node). name e = name c \<longrightarrow> status e = 0)"
proof (cases "mirror_readdir env (MIRRDIR env @ get_full_path anc node)")
  case None
  with assms(2) show ?thesis by (simp add: clone_skeleton.simps)
next
  case (Some es)
  define node1 where "node1 = insert_dummies node es"
  define cs' where "cs' = fst (clone_children env (name node # anc) (get_full_path anc node) (children node1) buf2)"
  have res: "children (fst (clone_skeleton env anc node buf2)) = cs'"
    using Some by (simp add: clone_skeleton.simps Let_def node1_def cs'_def set_children_def split: prod.splits)
  have rel: "list_all2 cloned (children node1) cs'"
    unfolding cs'_def by (rule clone_children_cloned)
  from assms(2) res obtain j where j: "j < length cs'" "cs' ! j = c"
    by (auto simp: in_set_conv_nth)
  from rel j have jl: "j < length (children node1)" and cl: "cloned (children node1 ! j) c"
    by (auto simp: list_all2_conv_all_nth)
  have eq: "c = children node1 ! j"
  proof (rule ccontr)
    assume "c \<noteq> children node1 ! j"
    with cl have "status (children node1 ! j) AND (IS_SKEL OR IS_INTER) \<noteq> 0" "kept (children node1 ! j) c"
      by (auto simp: cloned_def)
    then have "status c AND (IS_SKEL OR IS_INTER) \<noteq> 0"
      by (simp add: kept_alt [of "children node1 ! j"])
    with assms(3) show False by (simp add: IS_DUMMY_def IS_SKEL_def IS_INTER_def)
  qed
  have da: "dummies_added (children node) (children node1)"
    unfolding node1_def by (intro insert_dummies_added dummies_added_refl assms(1))
  show ?thesis
  proof (rule disjCI)
    assume neg: "\<not> (\<forall>e\<in>set (children node). name e = name c \<longrightarrow> status e = 0)"
    then obtain e where e: "e \<in> set (children node)" "name e = name c" "status e \<noteq> 0" by blast
    then obtain i where i: "i < length (children node)" "children node ! i = e"
      by (auto simp: in_set_conv_nth)
    from da i e have i1: "i < length (children node1)" "children node1 ! i = e"
      by (auto simp: dummies_added_def)
    from da have dist: "distinct (map name (children node1))" by (simp add: dummies_added_def)
    have "map name (children node1) ! i = map name (children node1) ! j"
      using i1 jl e(2) eq by simp
    with dist i1(1) jl have "i = j"
      using nth_eq_iff_index_eq [of "map name (children node1)" i j] by simp
    with i1 eq e(1) show "c \<in> set (children node)" by simp
  qed
qed

lemma etc_skel_cloned:
  "fst (clone_skeleton env_example [''/system''] etc_skel_node []) =
     Node (Some ''A'') ''etc'' DT_DIR (IS_INTER OR IS_SKEL)
       [Node None ''pipe'' DT_REG IS_DUMMY [],
        Node (Some ''A'') ''new.conf'' DT_REG IS_MODULE [],
        Node (Some ''B'') ''hosts'' DT_REG IS_MODULE []]"
  by (simp add: clone_skeleton.simps etc_skel_node_def env_example_def Let_def get_full_path_def
      insert_child_def set_children_def mount_child_def module_str_def
      IS_INTER_def IS_SKEL_def IS_MODULE_def IS_DUMMY_def IS_VENDOR_def)

text \<open>
  Claim C9, as amended. A dummy node never displaces an existing child whose status is
  not 0: when the first child of the same name carries any flag, \<open>insert_child\<close>
  leaves the parent as it is and returns that child. So after \<open>clone_skeleton\<close> every
  child with a flag (MODULE, SKEL, INTER, at any depth the call reaches) is in its slot
  with its module, name, type and status; and, the names of the children being distinct,
  a dummy child that was not there before has a name under which no child with a status
  other than 0 existed.
\<close>

theorem dummy_keeps_flagged:
  "(status c = IS_DUMMY \<and> i < length (children p) \<and> name (children p ! i) = name c \<and>
    (\<forall>j<i. name (children p ! j) \<noteq> name c) \<and> status (children p ! i) \<noteq> 0 \<longrightarrow>
      insert_child p c = (p, i)) \<and>
   kept node (fst (clone_skeleton env anc node buf2)) \<and>
   (distinct (map name (children node)) \<longrightarrow>
      (\<forall>d\<in>set (children (fst (clone_skeleton env anc node buf2))). status d = IS_DUMMY \<longrightarrow>
         d \<in> set (children node) \<or>
         (\<forall>e\<in>set (children node). name e = name d \<longrightarrow> status e = 0)))"
proof (intro conjI impI ballI)
  assume a: "status c = IS_DUMMY \<and> i < length (children p) \<and> name (children p ! i) = name c \<and>
    (\<forall>j<i. name (children p ! j) \<noteq> name c) \<and> status (children p ! i) \<noteq> 0"
  then have "insert_scan (children p) c =
      (if status (children p ! i) < status c then ((children p)[i := c], i) else (children p, i))"
    by (intro insert_scan_first_duplicate) simp_all
  moreover from a have "\<not> status (children p ! i) < status c" by (simp add: not_less_dummy)
  ultimately show "insert_child p c = (p, i)"
    by (simp add: insert_child_def set_children_same)
next
  show "kept node (fst (clone_skeleton env anc node buf2))" by (rule clone_kept)
next
  fix d
  assume "distinct (map name (children node))"
    and "d \<in> set (children (fst (clone_skeleton env anc node buf2)))"
    and "status d = IS_DUMMY"
  then show "d \<in> set (children node) \<or> (\<forall>e\<in>set (children node). name e = name d \<longrightarrow> status e = 0)"
    by (rule dummy_children_origin)
qed

theorem dummy_keeps_flagged_witness:
  "insert_child etc_skel_node (Node None ''hosts'' DT_REG IS_DUMMY []) = (etc_skel_node, 2) \<and>
   kept etc_skel_node (fst (clone_skeleton env_example [''/system''] etc_skel_node [])) \<and>
   children (fst (clone_skeleton env_example [''/system''] etc_skel_node [])) ! 2 =
     Node (Some ''B'') ''hosts'' DT_REG IS_MODULE []"
  using dummy_keeps_flagged [of "Node None ''hosts'' DT_REG IS_DUMMY []" 2 etc_skel_node
      etc_skel_node env_example "[''/system'']" "[]"]
  by (simp add: etc_skel_cloned) (simp add: etc_skel_node_def nth_Cons' less_Suc_eq IS_MODULE_def IS_DUMMY_def)

text \<open>
  The claim as stated (a dummy never displaces an existing child, dummies exist only for
  names no module contributed) fails for a child left at status 0: module \<^verbatim>\<open>A\<close>
  brings \<^verbatim>\<open>system/etc/pipe\<close>, a named pipe whose live path exists, the node keeps
  the status 0 of \<^verbatim>\<open>xcalloc\<close>, and the dummy of the mirror entry \<^verbatim>\<open>pipe\<close> takes
  its slot.
\<close>

theorem dummy_keeps_flagged_counterexample:
  "sys_root (load_modules env_example newfile_image load_init) =
     Node None ''/system'' DT_UNKNOWN IS_INTER
       [Node (Some ''A'') ''etc'' DT_DIR (IS_INTER OR IS_SKEL)
          [Node (Some ''A'') ''pipe'' DT_FIFO 0 [],
           Node (Some ''A'') ''new.conf'' DT_REG IS_MODULE []]] \<and>
   fst (magic_mount env_example []
          (sys_root (load_modules env_example newfile_image load_init)) []) =
     Node None ''/system'' DT_UNKNOWN IS_INTER
       [Node (Some ''A'') ''etc'' DT_DIR (IS_INTER OR IS_SKEL)
          [Node None ''pipe'' DT_REG IS_DUMMY [],
           Node (Some ''A'') ''new.conf'' DT_REG IS_MODULE [],
           Node None ''hosts'' DT_REG IS_DUMMY []]] \<and>
   insert_child etc_skel_node (Node None ''pipe'' DT_REG IS_DUMMY []) =
     (Node (Some ''A'') ''etc'' DT_DIR (IS_INTER OR IS_SKEL)
       [Node None ''pipe'' DT_REG IS_DUMMY [],
        Node (Some ''A'') ''new.conf'' DT_REG IS_MODULE [],
        Node (Some ''B'') ''hosts'' DT_REG IS_MODULE []], 0)"
  by (simp add: newfile_tree)
     (simp add: clone_skeleton.simps etc_skel_node_def env_example_def Let_def
      get_full_path_def insert_child_def set_children_def mount_child_def module_str_def
      IS_INTER_def IS_SKEL_def IS_MODULE_def IS_DUMMY_def IS_VENDOR_def)

subsection \<open>Module loading\<close>

lemma load_entry_mono:
  "set (module_list st) \<subseteq> set (module_list (load_modules env [(nm, f)] st)) \<and>
   set (load_trace st) \<subseteq> set (load_trace (load_modules env [(nm, f)] st))"
  by (auto simp: Let_def split: option.splits)

lemma load_modules_mono:
  "set (module_list st) \<subseteq> set (module_list (load_modules env es st)) \<and>
   set (load_trace st) \<subseteq> set (load_trace (load_modules env es st))"
proof (induction es arbitrary: st)
  case Nil
  show ?case by simp
next
  case (Cons e es)
  obtain nm f where e: "e = (nm, f)" by (cases e)
  from load_entry_mono [of st env nm f] Cons.IH [of "load_modules env [e] st"]
  show ?case unfolding e by (subst (1 2) load_modules_Cons) blast
qed

lemma load_entry_listed:
  assumes "d_type f = DT_DIR" and "nm \<noteq> ''.''" and "nm \<noteq> ''..''" and "nm \<noteq> ''.core''"
    and "nm \<noteq> ''lost+found''" and "\<not> fs_access f ''remove''" and "\<not> fs_access f ''disable''"
  shows "nm \<in> set (module_list (load_modules env [(nm, f)] st))"
    and "fs_access f ''system.prop'' \<Longrightarrow>
         ReadPropFile (MOUNTPOINT env @ ''/'' @ nm @ ''/system.prop'')
           \<in> set (load_trace (load_modules env [(nm, f)] st))"
    and "\<not> fs_access f ''auto_mount'' \<or> \<not> fs_access f ''system'' \<Longrightarrow>
         sys_root (load_modules env [(nm, f)] st) = sys_root st \<and>
         has_modules (load_modules env [(nm, f)] st) = has_modules st"
  using assms by (auto simp: Let_def fs_access_def split: option.splits)

lemma exec_module_script_set:
  "set (exec_module_script env access_f stage ms) =
     {RunSh (MOUNTPOINT env @ ''/'' @ m @ ''/'' @ stage @ ''.sh'') | m.
        m \<in> set ms \<and> access_f (MOUNTPOINT env @ ''/'' @ m @ ''/'' @ stage @ ''.sh'')}"
  by (induction ms) (auto simp: Let_def)

text \<open>
  Claim C10. A directory entry of the mounted image that is none of \<^verbatim>\<open>.\<close>,
  \<^verbatim>\<open>..\<close>, \<^verbatim>\<open>.core\<close>, \<^verbatim>\<open>lost+found\<close> and has neither a \<^verbatim>\<open>remove\<close> nor
  a \<^verbatim>\<open>disable\<close> marker is in the module list after the loop, wherever it stands in
  the image, and its \<^verbatim>\<open>system.prop\<close>, if it has one, was read. When it lacks
  \<^verbatim>\<open>auto_mount\<close> or \<^verbatim>\<open>system\<close> it leaves the tree and \<^verbatim>\<open>has_modules\<close> as
  they were; all the same \<open>exec_module_script\<close> runs its script of any stage if the
  script exists, and so does the post-fs-data stage.
\<close>

theorem module_listed_before_checks:
  assumes "d_type f = DT_DIR" and "nm \<noteq> ''.''" and "nm \<noteq> ''..''" and "nm \<noteq> ''.core''"
    and "nm \<noteq> ''lost+found''" and "\<not> fs_access f ''remove''" and "\<not> fs_access f ''disable''"
  shows "nm \<in> set (module_list (load_modules env (pre @ (nm, f) # post) st)) \<and>
    (fs_access f ''system.prop'' \<longrightarrow>
       ReadPropFile (MOUNTPOINT env @ ''/'' @ nm @ ''/system.prop'')
         \<in> set (load_trace (load_modules env (pre @ (nm, f) # post) st))) \<and>
    (\<not> fs_access f ''auto_mount'' \<or> \<not> fs_access f ''system'' \<longrightarrow>
       sys_root (load_modules env (pre @ [(nm, f)]) st) = sys_root (load_modules env pre st) \<and>
       has_modules (load_modules env (pre @ [(nm, f)]) st) =
         has_modules (load_modules env pre st)) \<and>
    (access_f (MOUNTPOINT env @ ''/'' @ nm @ ''/'' @ stage @ ''.sh'') \<longrightarrow>
       RunSh (MOUNTPOINT env @ ''/'' @ nm @ ''/'' @ stage @ ''.sh'')
         \<in> set (exec_module_script env access_f stage
                  (module_list (load_modules env (pre @ (nm, f) # post) st)))) \<and>
    (image w = pre @ (nm, f) # post \<and>
     script_access w (MOUNTPOINT env @ ''/'' @ nm @ ''/'' @ ''post-fs-data'' @ ''.sh'') \<longrightarrow>
       RunSh (MOUNTPOINT env @ ''/'' @ nm @ ''/'' @ ''post-fs-data'' @ ''.sh'')
         \<in> set (load_and_mount env w magiskloop))"
proof -
  define st1 where "st1 = load_modules env pre st"
  define st2 where "st2 = load_modules env [(nm, f)] st1"
  have parts: "load_modules env (pre @ (nm, f) # post) st' = load_modules env post (load_modules env [(nm, f)] (load_modules env pre st'))" for st'
    using load_modules_append [of env pre "(nm, f) # post" st'] load_modules_Cons [of env "(nm, f)" post]
    by simp
  have listed: "nm \<in> set (module_list (load_modules env (pre @ (nm, f) # post) st'))" for st'
    using load_entry_listed(1) [OF assms, of env "load_modules env pre st'"]
      load_modules_mono [of "load_modules env [(nm, f)] (load_modules env pre st')" env post]
    unfolding parts by blast
  have props: "ReadPropFile (MOUNTPOINT env @ ''/'' @ nm @ ''/system.prop'')
         \<in> set (load_trace (load_modules env (pre @ (nm, f) # post) st))"
    if "fs_access f ''system.prop''"
    using load_entry_listed(2) [OF assms that, of env "load_modules env pre st"]
      load_modules_mono [of "load_modules env [(nm, f)] (load_modules env pre st)" env post]
    unfolding parts by blast
  have same: "sys_root (load_modules env (pre @ [(nm, f)]) st) = sys_root (load_modules env pre st) \<and>
       has_modules (load_modules env (pre @ [(nm, f)]) st) = has_modules (load_modules env pre st)"
    if "\<not> fs_access f ''auto_mount'' \<or> \<not> fs_access f ''system''"
    using load_entry_listed(3) [OF assms that, of env "load_modules env pre st"]
    by (simp add: load_modules_append)
  have run: "RunSh (MOUNTPOINT env @ ''/'' @ nm @ ''/'' @ stage' @ ''.sh'')
         \<in> set (exec_module_script env a stage' (module_list (load_modules env (pre @ (nm, f) # post) st')))"
    if "a (MOUNTPOINT env @ ''/'' @ nm @ ''/'' @ stage' @ ''.sh'')" for a stage' st'
    using that listed [of st'] unfolding exec_module_script_set by blast
  have stage: "RunSh (MOUNTPOINT env @ ''/'' @ nm @ ''/'' @ ''post-fs-data'' @ ''.sh'')
         \<in> set (load_and_mount env w magiskloop)"
    if "image w = pre @ (nm, f) # post \<and>
     script_access w (MOUNTPOINT env @ ''/'' @ nm @ ''/'' @ ''post-fs-data'' @ ''.sh'')"
    using run [of "script_access w" "''post-fs-data''" load_init] that
    by (simp add: load_and_mount_def Let_def)
  from listed [of st] props same run [of access_f stage st] stage show ?thesis by blast
qed

theorem module_listed_before_checks_witness:
  "module_list (load_modules env_example [(''A'', newfile_module), (''C'', plain_module)] load_init) =
     [''A'', ''C''] \<and>
   ''C'' \<in> set (module_list
      (load_modules env_example [(''A'', newfile_module), (''C'', plain_module)] load_init)) \<and>
   ReadPropFile ''/magisk/C/system.prop'' \<in> set (load_trace
      (load_modules env_example [(''A'', newfile_module), (''C'', plain_module)] load_init)) \<and>
   sys_root (load_modules env_example [(''A'', newfile_module), (''C'', plain_module)] load_init) =
     sys_root (load_modules env_example [(''A'', newfile_module)] load_init) \<and>
   RunSh ''/magisk/C/service.sh'' \<in> set (exec_module_script env_example (\<lambda>p. True) ''service''
      (module_list
        (load_modules env_example [(''A'', newfile_module), (''C'', plain_module)] load_init)))"
proof -
  have ml: "module_list (load_modules env_example [(''A'', newfile_module), (''C'', plain_module)] load_init) =
     [''A'', ''C'']"
    by (simp add: env_example_def newfile_module_def plain_module_def load_init_def Let_def
      fs_access_def insert_child_def set_children_def set_status_def get_full_path_def
      IS_INTER_def IS_SKEL_def IS_MODULE_def)
  have hyp: "d_type plain_module = DT_DIR" "\<not> fs_access plain_module ''remove''"
    "\<not> fs_access plain_module ''disable''" "fs_access plain_module ''system.prop''"
    "\<not> fs_access plain_module ''auto_mount''"
    by (simp_all add: plain_module_def fs_access_def)
  from module_listed_before_checks [of plain_module "''C''" env_example
      "[(''A'', newfile_module)]" "[]" load_init "\<lambda>p. True" "''service''" vendor_world "[]"] hyp ml
  show ?thesis by (simp add: env_example_def)
qed

subsection \<open>The vendor node and the stage\<close>

lemma hoist_scan_first:
  "i < length cs \<Longrightarrow> name (cs ! i) = ''vendor'' \<Longrightarrow> \<forall>j<i. name (cs ! j) \<noteq> ''vendor'' \<Longrightarrow>
   hoist_scan sv cs =
     (cs[i := Node None ''vendor'' (if sv then DT_LNK else DT_DIR) IS_VENDOR []],
      Some (set_name ''/vendor'' (cs ! i)))"
proof (induction cs arbitrary: i)
  case Nil
  then show ?case by simp
next
  case (Cons e es)
  show ?case
  proof (cases i)
    case 0
    with Cons.prems show ?thesis by simp
  next
    case (Suc k)
    with Cons.prems have ne: "name e \<noteq> ''vendor''" by auto
    from Suc Cons.prems have "k < length es" "name (es ! k) = ''vendor''"
      "\<forall>j<k. name (es ! j) \<noteq> ''vendor''" by auto
    from Cons.IH [OF this] ne Suc show ?thesis by simp
  qed
qed

lemma mirror_lines_flag:
  "fst (mirror_lines env ls (sv, b, ops)) \<longleftrightarrow>
     sv \<or> (\<exists>line\<in>set ls. \<not> strstr line '' /system '' \<and> strstr line '' /vendor '')"
  by (induction ls arbitrary: sv b ops) (auto simp: Let_def)

lemma mount_mirrors_flag:
  "fst (mount_mirrors env mounts b) \<longleftrightarrow>
     (\<exists>line\<in>set mounts. \<not> strstr line '' /system '' \<and> strstr line '' /vendor '')"
  using mirror_lines_flag [of env mounts False b "[]"]
  by (simp add: mount_mirrors_def split: prod.splits) auto

lemma construct_name:
  "name (construct_tree env modl dir anc parent) = name parent"
  "name (construct_entries env modl es anc parent) = name parent"
proof (induction env modl dir anc parent and env modl es anc parent rule: construct_tree_construct_entries.induct)
  case (6 env modl nm f es anc parent)
  show ?case
  proof (cases "nm = ''.'' \<or> nm = ''..''")
    case True
    with 6 show ?thesis by simp
  next
    case False
    define buf where "buf = get_full_path anc parent @ ''/'' @ nm"
    define clone where "clone = (if d_type f = DT_LNK \<or> \<not> live_access env buf then True
               else if name parent \<noteq> ''/system'' \<or> nm \<noteq> ''vendor'' then live_islnk env buf
               else False)"
    define parent1 where "parent1 = (if clone then set_status (status parent OR IS_SKEL) parent else parent)"
    define st where "st = (if clone then IS_MODULE
               else if d_type f = DT_DIR then
                 (if fs_access f ''.replace'' then IS_MODULE else IS_INTER)
               else if d_type f = DT_REG then IS_MODULE
               else 0)"
    define node where "node = Node (Some modl) nm (d_type f) st []"
    obtain parent2 k where ins: "insert_child parent1 node = (parent2, k)" by force
    define child where "child = children parent2 ! k"
    define parent3 where "parent3 = (if status child AND (IS_SKEL OR IS_INTER) \<noteq> 0 then
                   set_children
                     ((children parent2)[k := construct_tree env modl f (name parent # anc) child])
                     parent2
                 else parent2)"
    have unfold: "construct_entries env modl ((nm, f) # es) anc parent = construct_entries env modl es anc parent3"
      using False by (intro construct_entries_step [OF _ _ buf_def clone_def parent1_def st_def node_def ins child_def parent3_def]) simp_all
    have "name parent2 = name parent"
      using ins by (auto simp: insert_child_def set_children_def parent1_def set_status_def split: prod.splits)
    then have n3: "name parent3 = name parent" by (simp add: parent3_def set_children_def)
    from "6.IH"(3) [OF False buf_def clone_def parent1_def st_def node_def ins [symmetric] child_def parent3_def] n3
    show ?thesis unfolding unfold by simp
  qed
qed simp_all

lemma load_entry_loaded: "loaded st \<Longrightarrow> loaded (load_modules env [(nm, f)] st)"
  by (auto simp: loaded_def Let_def construct_name split: option.splits)

lemma load_modules_loaded: "loaded st \<Longrightarrow> loaded (load_modules env es st)"
proof (induction es arbitrary: st)
  case Nil
  then show ?case by simp
next
  case (Cons e es)
  obtain nm f where e: "e = (nm, f)" by (cases e)
  from Cons.prems have "loaded (load_modules env [e] st)"
    unfolding e by (rule load_entry_loaded)
  from Cons.IH [OF this] show ?case by (subst load_modules_Cons)
qed

lemma load_init_loaded: "loaded load_init"
  by (simp add: loaded_def load_init_def)

lemma vendor_loaded:
  "load_modules vendor_env (image vendor_world) load_init =
     \<lparr>module_list = [''V''],
      sys_root = Node None ''/system'' DT_UNKNOWN IS_INTER
        [Node (Some ''V'') ''vendor'' DT_DIR IS_INTER
          [Node (Some ''V'') ''lib'' DT_DIR IS_INTER
            [Node (Some ''V'') ''x.so'' DT_REG IS_MODULE []]]],
      has_modules = True,
      load_trace = [Unlink ''/magisk/V/vendor'',
                    Symlink ''/magisk/V/system/vendor'' ''/magisk/V/vendor'']\<rparr>"
  by (simp add: vendor_env_def vendor_world_def vendor_module_def env_example_def load_init_def
      Let_def fs_access_def insert_child_def set_children_def set_status_def get_full_path_def
      IS_INTER_def IS_SKEL_def IS_MODULE_def)

text \<open>
  Claim C4. Let the root built by the module loop have a child named \<^verbatim>\<open>vendor\<close>, the
  first one at index \<open>i\<close>. Then \<^verbatim>\<open>has_modules\<close> is set, and the block that follows
  puts into slot \<open>i\<close> a new node with no module and no children whose status is VENDOR,
  whose name is \<^verbatim>\<open>vendor\<close> and whose type is LNK when a line of \<^verbatim>\<open>/proc/mounts\<close>
  names the mount point \<^verbatim>\<open>/vendor\<close> (and not \<^verbatim>\<open>/system\<close>) and DIR otherwise. The
  new node is a child of the root (its parent is the root: its full path is
  \<^verbatim>\<open>/system/vendor\<close>); the old node, renamed \<^verbatim>\<open>/vendor\<close>, is a root of its own
  (its parent is null: its full path is \<^verbatim>\<open>/vendor\<close>), and the calls of its
  \<open>magic_mount\<close> come after those of the \<open>magic_mount\<close> of the system tree.
\<close>

theorem vendor_hoist_swap:
  assumes "st = load_modules env (image w) load_init"
    and "i < length (children (sys_root st))"
    and "name (children (sys_root st) ! i) = ''vendor''"
    and "\<forall>j<i. name (children (sys_root st) ! j) \<noteq> ''vendor''"
  shows "\<exists>sv buf2 ops0 root' ven r1 b1 ops1 v b2 ops2.
     has_modules st \<and>
     mount_mirrors env (proc_mounts w) [] = (sv, buf2, ops0) \<and>
     (sv \<longleftrightarrow> (\<exists>line\<in>set (proc_mounts w).
                 \<not> strstr line '' /system '' \<and> strstr line '' /vendor '')) \<and>
     vendor_hoist sv (sys_root st) = (root', Some ven) \<and>
     root' = set_children
               ((children (sys_root st))
                  [i := Node None ''vendor'' (if sv then DT_LNK else DT_DIR) IS_VENDOR []])
               (sys_root st) \<and>
     ven = set_name ''/vendor'' (children (sys_root st) ! i) \<and>
     get_full_path [name root'] (children root' ! i) = ''/system/vendor'' \<and>
     get_full_path [] ven = ''/vendor'' \<and>
     magic_mount env [] root' buf2 = (r1, b1, ops1) \<and>
     magic_mount env [] ven b1 = (v, b2, ops2) \<and>
     magic_stage env (proc_mounts w) (sys_root st) = ops0 @ ops1 @ ops2 \<and>
     load_and_mount env w magiskloop =
       load_trace st @ [UmountImage (MOUNTPOINT env) magiskloop] @
       trim_img (trim_size w) (MAINIMG env) @ [MountImage (MAINIMG env) (MOUNTPOINT env)] @
       ops0 @ ops1 @ ops2 @
       exec_module_script env (script_access w) ''post-fs-data'' (module_list st)"
proof -
  have ld: "loaded st" unfolding assms(1) by (intro load_modules_loaded load_init_loaded)
  with assms(2) have hm: "has_modules st" and nm: "name (sys_root st) = ''/system''"
    by (auto simp: loaded_def)
  obtain sv buf2 ops0 where mm: "mount_mirrors env (proc_mounts w) [] = (sv, buf2, ops0)"
    by (cases "mount_mirrors env (proc_mounts w) []") auto
  from mount_mirrors_flag [of env "proc_mounts w" "[]"] mm
  have svc: "sv \<longleftrightarrow> (\<exists>line\<in>set (proc_mounts w). \<not> strstr line '' /system '' \<and> strstr line '' /vendor '')"
    by simp
  define root' where "root' = set_children
               ((children (sys_root st))
                  [i := Node None ''vendor'' (if sv then DT_LNK else DT_DIR) IS_VENDOR []])
               (sys_root st)"
  define ven where "ven = set_name ''/vendor'' (children (sys_root st) ! i)"
  have vh: "vendor_hoist sv (sys_root st) = (root', Some ven)"
    using hoist_scan_first [OF assms(2,3,4), of sv]
    by (simp add: vendor_hoist_def root'_def ven_def)
  have p1: "get_full_path [name root'] (children root' ! i) = ''/system/vendor''"
    using assms(2) nm by (simp add: root'_def set_children_def get_full_path_def)
  have p2: "get_full_path [] ven = ''/vendor''"
    by (simp add: ven_def set_name_def get_full_path_def)
  obtain r1 b1 ops1 where m1: "magic_mount env [] root' buf2 = (r1, b1, ops1)"
    by (cases "magic_mount env [] root' buf2") auto
  obtain v b2 ops2 where m2: "magic_mount env [] ven b1 = (v, b2, ops2)"
    by (cases "magic_mount env [] ven b1") auto
  have ms: "magic_stage env (proc_mounts w) (sys_root st) = ops0 @ ops1 @ ops2"
    by (simp add: magic_stage_def mm vh m1 m2)
  have lm: "load_and_mount env w magiskloop =
       load_trace st @ [UmountImage (MOUNTPOINT env) magiskloop] @
       trim_img (trim_size w) (MAINIMG env) @ [MountImage (MAINIMG env) (MOUNTPOINT env)] @
       ops0 @ ops1 @ ops2 @
       exec_module_script env (script_access w) ''post-fs-data'' (module_list st)"
    using hm ms by (simp add: load_and_mount_def Let_def assms(1) [symmetric])
  from hm mm svc vh p1 p2 m1 m2 ms lm root'_def ven_def show ?thesis by blast
qed

theorem vendor_hoist_swap_witness:
  "name (children (sys_root (load_modules vendor_env (image vendor_world) load_init)) ! 0) =
     ''vendor'' \<and>
   vendor_hoist True (sys_root (load_modules vendor_env (image vendor_world) load_init)) =
     (Node None ''/system'' DT_UNKNOWN IS_INTER [Node None ''vendor'' DT_LNK IS_VENDOR []],
      Some (Node (Some ''V'') ''/vendor'' DT_DIR IS_INTER
              [Node (Some ''V'') ''lib'' DT_DIR IS_INTER
                 [Node (Some ''V'') ''x.so'' DT_REG IS_MODULE []]])) \<and>
   load_and_mount vendor_env vendor_world ''/dev/block/loop0'' =
     [Unlink ''/magisk/V/vendor'', Symlink ''/magisk/V/system/vendor'' ''/magisk/V/vendor'',
      UmountImage ''/magisk'' ''/dev/block/loop0'',
      MountImage ''/data/magisk.img'' ''/magisk'',
      XMkdirP ''/dev/magisk/mirror/system'',
      XMount ''/dev/block/sda1'' ''/dev/magisk/mirror/system'',
      XMkdirP ''/dev/magisk/mirror/vendor'',
      XMount ''/dev/block/sda2'' ''/dev/magisk/mirror/vendor'',
      BindMount ''/magisk/V/vendor/lib/x.so'' ''/vendor/lib/x.so'']"
proof -
  have mm: "mount_mirrors vendor_env (proc_mounts vendor_world) [] =
      (True, ''/dev/magisk/mirror/vendor'',
       [XMkdirP ''/dev/magisk/mirror/system'',
        XMount ''/dev/block/sda1'' ''/dev/magisk/mirror/system'',
        XMkdirP ''/dev/magisk/mirror/vendor'',
        XMount ''/dev/block/sda2'' ''/dev/magisk/mirror/vendor''])"
    by (simp add: mount_mirrors_def vendor_world_def vendor_env_def env_example_def Let_def
        scan_word_def isspace_def)
  have vh: "vendor_hoist True (sys_root (load_modules vendor_env (image vendor_world) load_init)) =
     (Node None ''/system'' DT_UNKNOWN IS_INTER [Node None ''vendor'' DT_LNK IS_VENDOR []],
      Some (Node (Some ''V'') ''/vendor'' DT_DIR IS_INTER
              [Node (Some ''V'') ''lib'' DT_DIR IS_INTER
                 [Node (Some ''V'') ''x.so'' DT_REG IS_MODULE []]]))"
    by (simp add: vendor_loaded vendor_hoist_def set_children_def set_name_def)
  have m1: "magic_mount vendor_env []
      (Node None ''/system'' DT_UNKNOWN IS_INTER [Node None ''vendor'' DT_LNK IS_VENDOR []])
      ''/dev/magisk/mirror/vendor'' =
      (Node None ''/system'' DT_UNKNOWN IS_INTER [Node None ''vendor'' DT_LNK IS_VENDOR []],
       ''/dev/magisk/mirror/vendor'', [])"
    by (simp add: IS_INTER_def IS_VENDOR_def IS_MODULE_def IS_SKEL_def)
  have m2: "snd (snd (magic_mount vendor_env []
      (Node (Some ''V'') ''/vendor'' DT_DIR IS_INTER
              [Node (Some ''V'') ''lib'' DT_DIR IS_INTER
                 [Node (Some ''V'') ''x.so'' DT_REG IS_MODULE []]])
      ''/dev/magisk/mirror/vendor'')) =
      [BindMount ''/magisk/V/vendor/lib/x.so'' ''/vendor/lib/x.so'']"
    by (simp add: IS_INTER_def IS_VENDOR_def IS_MODULE_def IS_SKEL_def get_full_path_def
        module_str_def vendor_env_def env_example_def Let_def)
  have ms: "magic_stage vendor_env (proc_mounts vendor_world)
      (sys_root (load_modules vendor_env (image vendor_world) load_init)) =
      [XMkdirP ''/dev/magisk/mirror/system'',
       XMount ''/dev/block/sda1'' ''/dev/magisk/mirror/system'',
       XMkdirP ''/dev/magisk/mirror/vendor'',
       XMount ''/dev/block/sda2'' ''/dev/magisk/mirror/vendor'',
       BindMount ''/magisk/V/vendor/lib/x.so'' ''/vendor/lib/x.so'']"
    unfolding magic_stage_def mm by (simp add: vh m1 m2 del: magic_mount.simps)
  have lm: "load_and_mount vendor_env vendor_world ''/dev/block/loop0'' =
     [Unlink ''/magisk/V/vendor'', Symlink ''/magisk/V/system/vendor'' ''/magisk/V/vendor'',
      UmountImage ''/magisk'' ''/dev/block/loop0'',
      MountImage ''/data/magisk.img'' ''/magisk'',
      XMkdirP ''/dev/magisk/mirror/system'',
      XMount ''/dev/block/sda1'' ''/dev/magisk/mirror/system'',
      XMkdirP ''/dev/magisk/mirror/vendor'',
      XMount ''/dev/block/sda2'' ''/dev/magisk/mirror/vendor'',
      BindMount ''/magisk/V/vendor/lib/x.so'' ''/vendor/lib/x.so'']"
    unfolding load_and_mount_def Let_def ms
    by (simp add: vendor_loaded trim_img_def round_size_def)
       (simp add: vendor_world_def vendor_env_def env_example_def)
  from vendor_hoist_swap [of "load_modules vendor_env (image vendor_world) load_init"
      vendor_env vendor_world 0 "''/dev/block/loop0''"] vh lm
  show ?thesis by (simp add: vendor_loaded)
qed

text \<open>
  Claim C7 fails on the code. In a boot where the first mount of the main image succeeds
  and the mount after the trim returns a null pointer, the stage mounts the mirrors and
  bind-mounts the overlay all the same, since the pointer is freed without a test; when
  the first mount fails, the stage stops with the unblock file, as the claim says.
\<close>

theorem remount_failure_ignored:
  "mount_loop remount_fails_world = Some ''/dev/block/loop0'' \<and>
   remount_loop remount_fails_world = None \<and>
   post_fs_data env_example remount_fails_world =
     [WriteInt 0, CloseClient, System ''mv /data/magisk/stock_boot* /data;'',
      MountImage ''/data/magisk.img'' ''/magisk'',
      UmountImage ''/magisk'' ''/dev/block/loop0'',
      MountImage ''/data/magisk.img'' ''/magisk'',
      XMkdirP ''/dev/magisk/mirror/system'',
      XMount ''/dev/block/sda1'' ''/dev/magisk/mirror/system'',
      Symlink ''/dev/magisk/mirror/system/vendor'' ''/dev/magisk/mirror/vendor'',
      MkdirP ''/dev/magisk/dummy/system/etc'',
      CloneAttr ''/system/etc'' ''/dev/magisk/dummy/system/etc'',
      BindMount ''/dev/magisk/dummy/system/etc'' ''/system/etc'',
      OpenNew ''/dev/magisk/dummy/system/etc/pipe'',
      BindMount ''/dev/magisk/mirror/system/etc/pipe'' ''/system/etc/pipe'',
      OpenNew ''/dev/magisk/dummy/system/etc/new.conf'',
      BindMount ''/magisk/A/system/etc/new.conf'' ''/system/etc/new.conf'',
      OpenNew ''/dev/magisk/dummy/system/etc/hosts'',
      BindMount ''/dev/magisk/mirror/system/etc/hosts'' ''/system/etc/hosts'',
      CreateUnblock, PthreadExit] \<and>
   post_fs_data env_example (remount_fails_world\<lparr>mount_loop := None\<rparr>) =
     [WriteInt 0, CloseClient, System ''mv /data/magisk/stock_boot* /data;'',
      MountImage ''/data/magisk.img'' ''/magisk'', CreateUnblock, PthreadExit]"
proof -
  have ld: "load_modules env_example newfile_image load_init =
     \<lparr>module_list = [''A''],
      sys_root = Node None ''/system'' DT_UNKNOWN IS_INTER
       [Node (Some ''A'') ''etc'' DT_DIR (IS_INTER OR IS_SKEL)
          [Node (Some ''A'') ''pipe'' DT_FIFO 0 [],
           Node (Some ''A'') ''new.conf'' DT_REG IS_MODULE []]],
      has_modules = True, load_trace = []\<rparr>"
    by (simp add: env_example_def newfile_image_def newfile_module_def load_init_def Let_def
      fs_access_def insert_child_def set_children_def set_status_def get_full_path_def
      IS_INTER_def IS_SKEL_def IS_MODULE_def)
  have ms: "magic_stage env_example
      [''rootfs / rootfs ro 0 0'', ''/dev/block/sda1 /system ext4 ro 0 0'']
      (Node None ''/system'' DT_UNKNOWN IS_INTER
       [Node (Some ''A'') ''etc'' DT_DIR (IS_INTER OR IS_SKEL)
          [Node (Some ''A'') ''pipe'' DT_FIFO 0 [],
           Node (Some ''A'') ''new.conf'' DT_REG IS_MODULE []]]) =
     [XMkdirP ''/dev/magisk/mirror/system'',
      XMount ''/dev/block/sda1'' ''/dev/magisk/mirror/system'',
      Symlink ''/dev/magisk/mirror/system/vendor'' ''/dev/magisk/mirror/vendor'',
      MkdirP ''/dev/magisk/dummy/system/etc'',
      CloneAttr ''/system/etc'' ''/dev/magisk/dummy/system/etc'',
      BindMount ''/dev/magisk/dummy/system/etc'' ''/system/etc'',
      OpenNew ''/dev/magisk/dummy/system/etc/pipe'',
      BindMount ''/dev/magisk/mirror/system/etc/pipe'' ''/system/etc/pipe'',
      OpenNew ''/dev/magisk/dummy/system/etc/new.conf'',
      BindMount ''/magisk/A/system/etc/new.conf'' ''/system/etc/new.conf'',
      OpenNew ''/dev/magisk/dummy/system/etc/hosts'',
      BindMount ''/dev/magisk/mirror/system/etc/hosts'' ''/system/etc/hosts'']"
    by (simp add: magic_stage_def mount_mirrors_def vendor_hoist_def clone_skeleton.simps
        env_example_def Let_def scan_word_def isspace_def
        get_full_path_def insert_child_def set_children_def mount_child_def module_str_def
        IS_INTER_def IS_SKEL_def IS_MODULE_def IS_DUMMY_def IS_VENDOR_def)
  have lm: "load_and_mount env_example remount_fails_world ''/dev/block/loop0'' =
     [UmountImage ''/magisk'' ''/dev/block/loop0'',
      MountImage ''/data/magisk.img'' ''/magisk''] @
     magic_stage env_example
      [''rootfs / rootfs ro 0 0'', ''/dev/block/sda1 /system ext4 ro 0 0'']
      (Node None ''/system'' DT_UNKNOWN IS_INTER
       [Node (Some ''A'') ''etc'' DT_DIR (IS_INTER OR IS_SKEL)
          [Node (Some ''A'') ''pipe'' DT_FIFO 0 [],
           Node (Some ''A'') ''new.conf'' DT_REG IS_MODULE []]])"
    unfolding load_and_mount_def Let_def
    by (simp add: remount_fails_world_def ld trim_img_def round_size_def)
       (simp add: env_example_def)
  have pre: "post_fs_data env_example remount_fails_world =
     [WriteInt 0, CloseClient, System ''mv /data/magisk/stock_boot* /data;'',
      MountImage ''/data/magisk.img'' ''/magisk''] @
     load_and_mount env_example remount_fails_world ''/dev/block/loop0'' @
     [CreateUnblock, PthreadExit]"
    by (simp add: post_fs_data_def Let_def remount_fails_world_def merge_img_def
        merge_world_example_def exec_common_script_def stage_end_def unblock_boot_process_def
        env_example_def)
  have fail: "post_fs_data env_example (remount_fails_world\<lparr>mount_loop := None\<rparr>) =
     [WriteInt 0, CloseClient, System ''mv /data/magisk/stock_boot* /data;'',
      MountImage ''/data/magisk.img'' ''/magisk'', CreateUnblock, PthreadExit]"
    by (simp add: post_fs_data_def Let_def remount_fails_world_def merge_img_def
        merge_world_example_def unblock_boot_process_def env_example_def)
  have w: "mount_loop remount_fails_world = Some ''/dev/block/loop0''"
    "remount_loop remount_fails_world = None"
    by (simp_all add: remount_fails_world_def)
  show ?thesis using w fail by (simp add: pre lm ms)
qed



end
